theory Spec2Isabelle
  imports Complex_Main "HOL-Library.Sublist" "HOL-Library.Multiset" "HOL-Library.Log_Nat"
begin

section \<open>The JavaScript values the program computes with\<close>

subsection \<open>Numbers\<close>

text \<open>
  A number of JavaScript is an IEEE 754 double: a finite value, one of the two infinities
  or NaN. The finite values are rationals. The zero of the model stands for both zeros
  of IEEE 754: the program divides by the length of a non-empty array, by a positive
  constant, by \<open>avgDaily || 1\<close> and by a number it has tested to be positive, never by a
  number that can be a negative zero.
\<close>

datatype jsnum = Fin rat | PosInf | NegInf | NaN

text \<open>
  The result of an arithmetic operation on finite numbers is the exact result rounded
  to the nearest double, a tie going to the double with the even significand, and an
  infinity when the rounded result is out of range. \<open>exponent x\<close> is the integer \<open>e\<close>
  with \<open>2^e \<le> |x| < 2^(e+1)\<close>. The doubles around \<open>x\<close> are the multiples of \<open>ulp x\<close>,
  which is \<open>2^(e-52)\<close> for a normal \<open>x\<close> (53 significant bits) and \<open>2^(-1074)\<close> for a
  subnormal one; the finite doubles are below \<open>2^1024\<close> in absolute value.
\<close>

definition exponent :: "rat \<Rightarrow> int" where
  "exponent x =
     (if 1 \<le> \<bar>x\<bar> then bitlen \<lfloor>\<bar>x\<bar>\<rfloor> - 1 else - bitlen (\<lceil>1 / \<bar>x\<bar>\<rceil> - 1))"

definition ulp :: "rat \<Rightarrow> rat" where
  "ulp x = 2 powi (max (exponent x) (- 1022) - 52)"

definition round_half_even :: "rat \<Rightarrow> int" where
  "round_half_even y =
     (let f = \<lfloor>y\<rfloor>; d = y - of_int f
      in if d < 1 / 2 then f else if 1 / 2 < d then f + 1 else if even f then f else f + 1)"

definition nearest_double :: "rat \<Rightarrow> rat" where
  "nearest_double x = (if x = 0 then 0 else of_int (round_half_even (x / ulp x)) * ulp x)"

definition to_double :: "rat \<Rightarrow> jsnum" where
  "to_double x =
     (let v = nearest_double x
      in if 2 ^ 1024 \<le> v then PosInf else if v \<le> - (2 ^ 1024) then NegInf else Fin v)"

fun js_neg :: "jsnum \<Rightarrow> jsnum" where
  "js_neg (Fin a) = Fin (- a)"
| "js_neg PosInf = NegInf"
| "js_neg NegInf = PosInf"
| "js_neg NaN = NaN"

fun js_add :: "jsnum \<Rightarrow> jsnum \<Rightarrow> jsnum" where
  "js_add (Fin a) (Fin b) = to_double (a + b)"
| "js_add NaN _ = NaN"
| "js_add _ NaN = NaN"
| "js_add PosInf NegInf = NaN"
| "js_add NegInf PosInf = NaN"
| "js_add PosInf _ = PosInf"
| "js_add _ PosInf = PosInf"
| "js_add NegInf _ = NegInf"
| "js_add _ NegInf = NegInf"

definition js_sub :: "jsnum \<Rightarrow> jsnum \<Rightarrow> jsnum" where
  "js_sub a b = js_add a (js_neg b)"

fun js_sign_inf :: "rat \<Rightarrow> jsnum \<Rightarrow> jsnum" where
  "js_sign_inf s x = (if s = 0 then NaN else if 0 < s then x else js_neg x)"

fun js_mul :: "jsnum \<Rightarrow> jsnum \<Rightarrow> jsnum" where
  "js_mul (Fin a) (Fin b) = to_double (a * b)"
| "js_mul NaN _ = NaN"
| "js_mul _ NaN = NaN"
| "js_mul (Fin a) PosInf = js_sign_inf a PosInf"
| "js_mul (Fin a) NegInf = js_sign_inf a NegInf"
| "js_mul PosInf (Fin b) = js_sign_inf b PosInf"
| "js_mul NegInf (Fin b) = js_sign_inf b NegInf"
| "js_mul PosInf PosInf = PosInf"
| "js_mul PosInf NegInf = NegInf"
| "js_mul NegInf PosInf = NegInf"
| "js_mul NegInf NegInf = PosInf"

fun js_div :: "jsnum \<Rightarrow> jsnum \<Rightarrow> jsnum" where
  "js_div (Fin a) (Fin b) =
     (if b = 0 then (if a = 0 then NaN else if 0 < a then PosInf else NegInf)
      else to_double (a / b))"
| "js_div NaN _ = NaN"
| "js_div _ NaN = NaN"
| "js_div (Fin a) PosInf = Fin 0"
| "js_div (Fin a) NegInf = Fin 0"
| "js_div PosInf (Fin b) = (if 0 \<le> b then PosInf else NegInf)"
| "js_div NegInf (Fin b) = (if 0 \<le> b then NegInf else PosInf)"
| "js_div PosInf _ = NaN"
| "js_div NegInf _ = NaN"

text \<open>
  \<open>new Date(a) - new Date(b)\<close>, the difference of two time values. A time value is a
  whole number of milliseconds of at most \<open>8.64 * 10^15\<close> in absolute value, or NaN for an
  invalid date. The difference of two time values is rounded in its last bit at most,
  and never to zero: it has the sign of the exact difference, which is all that the sort
  reads of a comparator's result. The model keeps the exact difference.
\<close>

fun time_difference :: "jsnum \<Rightarrow> jsnum \<Rightarrow> jsnum" where
  "time_difference (Fin a) (Fin b) = Fin (a - b)"
| "time_difference a b = js_sub a b"

text \<open>
  \<open>Math.round\<close> returns the nearest integer, a half going towards plus infinity. The
  result is exact: a double of \<open>2^52\<close> or more in absolute value is an integer already.
\<close>

fun Math_round :: "jsnum \<Rightarrow> jsnum" where
  "Math_round (Fin a) = Fin (of_int \<lfloor>a + 1 / 2\<rfloor>)"
| "Math_round PosInf = PosInf"
| "Math_round NegInf = NegInf"
| "Math_round NaN = NaN"

fun Math_min :: "jsnum \<Rightarrow> jsnum \<Rightarrow> jsnum" where
  "Math_min (Fin a) (Fin b) = Fin (min a b)"
| "Math_min NaN _ = NaN"
| "Math_min _ NaN = NaN"
| "Math_min NegInf _ = NegInf"
| "Math_min _ NegInf = NegInf"
| "Math_min PosInf b = b"
| "Math_min a PosInf = a"

text \<open>The comparison \<open>a > b\<close>: false as soon as one side is NaN.\<close>

fun js_gt :: "jsnum \<Rightarrow> jsnum \<Rightarrow> bool" where
  "js_gt (Fin a) (Fin b) = (b < a)"
| "js_gt NaN _ = False"
| "js_gt _ NaN = False"
| "js_gt PosInf PosInf = False"
| "js_gt PosInf _ = True"
| "js_gt _ PosInf = False"
| "js_gt NegInf _ = False"
| "js_gt _ NegInf = True"

definition js_lt :: "jsnum \<Rightarrow> jsnum \<Rightarrow> bool" where
  "js_lt a b = js_gt b a"

text \<open>A number is falsy when it is zero or NaN; \<open>a || b\<close> is \<open>a\<close> unless \<open>a\<close> is falsy.\<close>

fun js_truthy :: "jsnum \<Rightarrow> bool" where
  "js_truthy (Fin a) = (a \<noteq> 0)"
| "js_truthy NaN = False"
| "js_truthy _ = True"

definition js_or :: "jsnum \<Rightarrow> jsnum \<Rightarrow> jsnum" where
  "js_or a b = (if js_truthy a then a else b)"

subsection \<open>Strings\<close>

text \<open>
  A string is the list of its characters. The characters of the model are those of
  Latin-1, the code points below 256, of which ASCII is the lower half; strings with
  other characters are outside the model. On these characters \<open>toLowerCase\<close> maps the
  capital letters, which are A to Z (65 to 90) and the accented capital letters (192
  to 214 and 216 to 222), to the small letters 32 places further, and leaves every
  other character as it is. \<open>includes\<close> is the test for a contiguous substring.
\<close>

definition lower_char :: "char \<Rightarrow> char" where
  "lower_char c =
     (let n = (of_char c :: nat)
      in if (65 \<le> n \<and> n \<le> 90) \<or> (192 \<le> n \<and> n \<le> 214) \<or> (216 \<le> n \<and> n \<le> 222)
         then char_of (n + 32) else c)"

definition toLowerCase :: "string \<Rightarrow> string" where
  "toLowerCase s = map lower_char s"


subsection \<open>Arrays\<close>

text \<open>
  \<open>xs.slice(start, stop)\<close>: a negative index counts from the end, and both ends are
  clamped to the array.
\<close>

definition rel_index :: "nat \<Rightarrow> int \<Rightarrow> nat" where
  "rel_index len k = (if k < 0 then nat (max (int len + k) 0) else min (nat k) len)"

definition Array_slice :: "'a list \<Rightarrow> int \<Rightarrow> int \<Rightarrow> 'a list" where
  "Array_slice xs start stop =
     (let s = rel_index (length xs) start; e = rel_index (length xs) stop
      in take (e - s) (drop s xs))"

definition Array_slice_from :: "'a list \<Rightarrow> int \<Rightarrow> 'a list" where
  "Array_slice_from xs start = drop (rel_index (length xs) start) xs"

text \<open>
  \<open>xs.sort(cmp)\<close> is a stable sort: \<open>a\<close> is moved behind \<open>b\<close> only when
  \<open>cmp(a, b) > 0\<close> (a comparator result of NaN counts as zero). With a consistent
  comparator every conforming sort returns the array of this insertion sort; with an
  inconsistent one the order is implementation-defined, and no theorem below relies
  on it.
\<close>

fun js_insort :: "('a \<Rightarrow> 'a \<Rightarrow> jsnum) \<Rightarrow> 'a \<Rightarrow> 'a list \<Rightarrow> 'a list" where
  "js_insort cmp x [] = [x]"
| "js_insort cmp x (y # ys) =
     (if js_gt (cmp x y) (Fin 0) then y # js_insort cmp x ys else x # y # ys)"

definition Array_sort :: "('a \<Rightarrow> 'a \<Rightarrow> jsnum) \<Rightarrow> 'a list \<Rightarrow> 'a list" where
  "Array_sort cmp xs = foldr (js_insort cmp) xs []"

text \<open>\<open>[...new Set(xs)]\<close>: the distinct elements, each at its first occurrence.\<close>

fun Set_add :: "'a list \<Rightarrow> 'a \<Rightarrow> 'a list" where
  "Set_add acc x = (if x \<in> set acc then acc else acc @ [x])"

definition Set_of :: "'a list \<Rightarrow> 'a list" where
  "Set_of xs = foldl Set_add [] xs"

subsection \<open>Objects used as dictionaries\<close>

text \<open>
  An object literal \<open>{}\<close> filled by \<open>o[k] = v\<close> is the list of its own properties in
  the order of their creation. \<open>Object.entries\<close> does not enumerate in that order:
  the keys that are array indices (canonical decimal numerals below \<open>2^32 - 1\<close>) come
  first, in ascending numeric order, and the other keys follow in creation order.

  The model covers the keys that do not name a property of \<open>Object.prototype\<close>. For a
  key of \<open>Object_prototype_names\<close> the expression \<open>o[k]\<close> finds the inherited property
  as long as \<open>o\<close> has none of its own, and \<open>(o[k] || 0) + m\<close> is then a string; an
  assignment to \<open>__proto__\<close> creates no property at all.
\<close>

type_synonym 'v js_object = "(string \<times> 'v) list"

definition Object_prototype_names :: "string list" where
  "Object_prototype_names =
     [''constructor'', ''__defineGetter__'', ''__defineSetter__'', ''hasOwnProperty'',
      ''__lookupGetter__'', ''__lookupSetter__'', ''isPrototypeOf'', ''propertyIsEnumerable'',
      ''toString'', ''valueOf'', ''__proto__'', ''toLocaleString'']"

definition obj_get :: "'v js_object \<Rightarrow> string \<Rightarrow> 'v option" where
  "obj_get obj k = map_of obj k"

fun obj_set :: "'v js_object \<Rightarrow> string \<Rightarrow> 'v \<Rightarrow> 'v js_object" where
  "obj_set [] k v = [(k, v)]"
| "obj_set (p # ps) k v = (if fst p = k then (k, v) # ps else p # obj_set ps k v)"

definition is_digit :: "char \<Rightarrow> bool" where
  "is_digit c = (48 \<le> (of_char c :: nat) \<and> (of_char c :: nat) \<le> 57)"

definition digits_value :: "string \<Rightarrow> nat" where
  "digits_value s = foldl (\<lambda>acc c. 10 * acc + (of_char c - 48)) 0 s"

definition is_array_index :: "string \<Rightarrow> bool" where
  "is_array_index s =
     (s \<noteq> [] \<and> list_all is_digit s \<and> (s = ''0'' \<or> hd s \<noteq> CHR ''0'')
      \<and> digits_value s < 4294967295)"

definition Object_entries :: "'v js_object \<Rightarrow> (string \<times> 'v) list" where
  "Object_entries obj =
     sort_key (\<lambda>p. digits_value (fst p)) (filter (\<lambda>p. is_array_index (fst p)) obj)
     @ filter (\<lambda>p. \<not> is_array_index (fst p)) obj"

definition Object_keys :: "'v js_object \<Rightarrow> string list" where
  "Object_keys obj = map fst (Object_entries obj)"

definition Object_values :: "'v js_object \<Rightarrow> 'v list" where
  "Object_values obj = map snd (Object_entries obj)"

subsection \<open>The runtime's date and collation functions\<close>

text \<open>
  What \<open>new Date(s)\<close>, \<open>getDay()\<close> and \<open>localeCompare\<close> return depends on the
  format of the date strings, the time zone and the locale of the browser, none of
  which the repository fixes. They are parameters of the model:
  \<^item> \<open>Date_value s\<close> is the time value of \<open>new Date(s)\<close>, NaN for an invalid date;
  \<^item> \<open>Date_getDay s\<close> is \<open>new Date(s).getDay()\<close>, the day of the week in local time
    (0 is Sunday, 6 is Saturday), NaN for an invalid date;
  \<^item> \<open>localeCompare a b\<close> is \<open>a.localeCompare(b)\<close>.

  The two date functions need not agree on the calendar day: a date-only ISO string is
  parsed as midnight UTC, and \<open>getDay\<close> answers for the local time of that instant.
\<close>

record Runtime =
  Date_value :: "string \<Rightarrow> jsnum"
  Date_getDay :: "string \<Rightarrow> jsnum"
  localeCompare :: "string \<Rightarrow> string \<Rightarrow> jsnum"

section \<open>The data model\<close>

text \<open>
  The records the loaders of \<open>utils/data.js\<close> produce (\<open>transformHealthData\<close>,
  \<open>transformScreenTimeData\<close>), and the \<open>Metrics\<close> object \<open>computeMetrics\<close>
  returns. The numeric fields of the records are finite numbers, read from JSON.
  \<open>totalDays\<close> is absent from the object returned for empty input.
\<close>

record AppMinutes =
  app :: string
  minutes :: rat

record CategoryMinutes =
  category :: string
  minutes :: rat

record DateTotal =
  date :: string
  total :: rat

record HealthMetrics =
  avgSteps :: jsnum
  avgSleep :: jsnum
  avgEnergy :: jsnum
  avgWorkout :: jsnum
  workoutDays :: nat
  totalDays :: "nat option"

record ScreenTimeMetrics =
  topApps :: "AppMinutes list"
  topCategories :: "CategoryMinutes list"
  dailyTotals :: "DateTotal list"
  avgDaily :: jsnum

record WellnessMetrics =
  score :: jsnum
  stepsScore :: jsnum
  sleepScore :: jsnum
  workoutScore :: jsnum
  screenTimeScore :: jsnum
  weeklyScore :: jsnum
  weeklyChange :: jsnum

record StreakCounts =
  workout :: nat
  sleep :: nat
  steps :: nat

record StreakMetrics =
  current :: StreakCounts
  best :: StreakCounts

record Metrics =
  health :: HealthMetrics
  screenTime :: ScreenTimeMetrics
  wellness :: WellnessMetrics
  streaks :: StreakMetrics

record HealthRecord =
  date :: string
  steps :: rat
  sleep :: rat
  energy :: rat
  workout :: rat

record ScreenTimeRecord =
  date :: string
  app :: string
  minutes :: rat
  category :: string

section \<open>\<open>computeMetrics\<close> (utils/data.js)\<close>

text \<open>
  \<open>Math.round(xs.reduce((sum, d) => sum + d.f, 0) / n)\<close>, the expression behind every
  average of the function. The sum of the fields is exact in the model. It is the sum
  that \<open>reduce\<close> computes when the fields are whole numbers and the sum stays below
  \<open>2^53\<close>, as counts of steps and of minutes do; the quotient is rounded to a double.
\<close>

definition avg_rounded :: "('a \<Rightarrow> rat) \<Rightarrow> 'a list \<Rightarrow> nat \<Rightarrow> jsnum" where
  "avg_rounded f xs n =
     Math_round (js_div (Fin (foldl (\<lambda>sum d. sum + f d) 0 xs)) (Fin (of_nat n)))"

text \<open>
  \<open>obj[k] = (obj[k] || 0) + m\<close> for a key \<open>k\<close> that is not in \<open>Object_prototype_names\<close>;
  the sum is exact, as above.
\<close>

definition add_total :: "rat js_object \<Rightarrow> string \<Rightarrow> rat \<Rightarrow> rat js_object" where
  "add_total obj k m =
     obj_set obj k
       ((case obj_get obj k of None \<Rightarrow> 0 | Some v \<Rightarrow> if v \<noteq> 0 then v else 0) + m)"

text \<open>The \<open>forEach\<close> that fills \<open>appTotals\<close>, \<open>categoryTotals\<close> and \<open>dailyTotals\<close>.\<close>

definition totals_step ::
  "rat js_object \<times> rat js_object \<times> rat js_object \<Rightarrow> ScreenTimeRecord
   \<Rightarrow> rat js_object \<times> rat js_object \<times> rat js_object" where
  "totals_step acc item =
     (case acc of (appTotals, categoryTotals, dateTotals) \<Rightarrow>
        (add_total appTotals (ScreenTimeRecord.app item) (ScreenTimeRecord.minutes item),
         add_total categoryTotals (ScreenTimeRecord.category item) (ScreenTimeRecord.minutes item),
         add_total dateTotals (ScreenTimeRecord.date item) (ScreenTimeRecord.minutes item)))"

definition screenTime_totals ::
  "ScreenTimeRecord list \<Rightarrow> rat js_object \<times> rat js_object \<times> rat js_object" where
  "screenTime_totals screenTimeData = foldl totals_step ([], [], []) screenTimeData"

text \<open>
  The comparator \<open>(a, b) => b[1] - a[1]\<close> on the entries of a totals object. The sort
  reads the sign of the result only, and the rounded difference of two doubles has the
  sign of the exact difference, which the model keeps.
\<close>

definition by_value_desc :: "string \<times> rat \<Rightarrow> string \<times> rat \<Rightarrow> jsnum" where
  "by_value_desc a b = Fin (snd b - snd a)"

definition topApps_of :: "rat js_object \<Rightarrow> AppMinutes list" where
  "topApps_of appTotals =
     map (\<lambda>(a, m). \<lparr>AppMinutes.app = a, AppMinutes.minutes = m\<rparr>)
       (take 10 (Array_sort by_value_desc (Object_entries appTotals)))"

definition topCategories_of :: "rat js_object \<Rightarrow> CategoryMinutes list" where
  "topCategories_of categoryTotals =
     map (\<lambda>(c, m). \<lparr>CategoryMinutes.category = c, CategoryMinutes.minutes = m\<rparr>)
       (Array_sort by_value_desc (Object_entries categoryTotals))"

definition dailyTotalsArray_of :: "Runtime \<Rightarrow> rat js_object \<Rightarrow> DateTotal list" where
  "dailyTotalsArray_of rt dateTotals =
     Array_sort (\<lambda>a b. localeCompare rt (DateTotal.date a) (DateTotal.date b))
       (map (\<lambda>(d, t). \<lparr>DateTotal.date = d, DateTotal.total = t\<rparr>) (Object_entries dateTotals))"

text \<open>The ideal values of the wellness score and the thresholds of the streaks.\<close>

definition idealSteps :: rat where "idealSteps = 10000"
definition idealSleep :: rat where "idealSleep = 480"
definition idealWorkout :: rat where "idealWorkout = 30"
definition idealScreenTime :: rat where "idealScreenTime = 240"

definition streakWorkoutMin :: rat where "streakWorkoutMin = 15"
definition streakSleepMin :: rat where "streakSleepMin = 420"
definition streakStepsMin :: rat where "streakStepsMin = 8000"

text \<open>
  \<open>Math.min(100, (avg / ideal) * 100)\<close>,
  \<open>Math.min(100, (idealScreenTime / (avg || 1)) * 100)\<close> and the weighted, rounded sum
  of the four sub-scores. The literals \<open>0.30\<close>, \<open>0.25\<close> and \<open>0.15\<close> denote the doubles
  nearest to these decimals.
\<close>

definition sub_score :: "jsnum \<Rightarrow> rat \<Rightarrow> jsnum" where
  "sub_score avg ideal = Math_min (Fin 100) (js_mul (js_div avg (Fin ideal)) (Fin 100))"

definition screen_score :: "jsnum \<Rightarrow> jsnum" where
  "screen_score avg =
     Math_min (Fin 100) (js_mul (js_div (Fin idealScreenTime) (js_or avg (Fin 1))) (Fin 100))"

definition weighted_score :: "jsnum \<Rightarrow> jsnum \<Rightarrow> jsnum \<Rightarrow> jsnum \<Rightarrow> jsnum" where
  "weighted_score stepsS sleepS workoutS screenS =
     Math_round
       (js_add (js_add (js_add (js_mul stepsS (to_double (30 / 100)))
                               (js_mul sleepS (to_double (30 / 100))))
                 (js_mul workoutS (to_double (25 / 100))))
          (js_mul screenS (to_double (15 / 100))))"

text \<open>
  The screen time of the days of a window: the records whose date is one of the
  window's dates, summed per date, averaged over the dates found and rounded; 0 when
  no record falls in the window.
\<close>

definition window_avgScreenTime :: "HealthRecord list \<Rightarrow> ScreenTimeRecord list \<Rightarrow> jsnum" where
  "window_avgScreenTime days screenTimeData =
     (let dates = map HealthRecord.date days;
          windowData = filter (\<lambda>item. ScreenTimeRecord.date item \<in> set dates) screenTimeData;
          totals = foldl (\<lambda>obj item. add_total obj (ScreenTimeRecord.date item)
                                        (ScreenTimeRecord.minutes item)) [] windowData
      in if length (Object_keys totals) > 0
         then Math_round (js_div (Fin (foldl (\<lambda>sum t. sum + t) 0 (Object_values totals)))
                                 (Fin (of_nat (length (Object_keys totals)))))
         else Fin 0)"

definition window_avg :: "(HealthRecord \<Rightarrow> rat) \<Rightarrow> HealthRecord list \<Rightarrow> jsnum" where
  "window_avg f days = (if length days > 0 then avg_rounded f days (length days) else Fin 0)"

text \<open>
  The streak loops. A current streak counts the days from the front of the array sorted
  by descending date and leaves the loop at the first day below the threshold. The loop
  of the best streaks runs over the array sorted by ascending date and keeps, for each
  habit, the best and the running count.
\<close>

fun count_streak :: "('a \<Rightarrow> bool) \<Rightarrow> nat \<Rightarrow> 'a list \<Rightarrow> nat" where
  "count_streak ok n [] = n"
| "count_streak ok n (day # days) = (if ok day then count_streak ok (n + 1) days else n)"

fun streak_step :: "bool \<Rightarrow> nat \<times> nat \<Rightarrow> nat \<times> nat" where
  "streak_step ok (bestStreak, currentStreak) =
     (if ok then (max bestStreak (currentStreak + 1), currentStreak + 1) else (bestStreak, 0))"

definition best_step ::
  "(nat \<times> nat) \<times> (nat \<times> nat) \<times> (nat \<times> nat) \<Rightarrow> HealthRecord
   \<Rightarrow> (nat \<times> nat) \<times> (nat \<times> nat) \<times> (nat \<times> nat)" where
  "best_step st day =
     (case st of (w, sl, stp) \<Rightarrow>
        (streak_step (HealthRecord.workout day \<ge> streakWorkoutMin) w,
         streak_step (HealthRecord.sleep day \<ge> streakSleepMin) sl,
         streak_step (HealthRecord.steps day \<ge> streakStepsMin) stp))"

definition by_date_desc :: "Runtime \<Rightarrow> HealthRecord \<Rightarrow> HealthRecord \<Rightarrow> jsnum" where
  "by_date_desc rt a b =
     time_difference (Date_value rt (HealthRecord.date b)) (Date_value rt (HealthRecord.date a))"

definition by_date_asc :: "Runtime \<Rightarrow> HealthRecord \<Rightarrow> HealthRecord \<Rightarrow> jsnum" where
  "by_date_asc rt a b =
     time_difference (Date_value rt (HealthRecord.date a)) (Date_value rt (HealthRecord.date b))"

definition currentStreaks :: "HealthRecord list \<Rightarrow> StreakCounts" where
  "currentStreaks sortedHealthData =
     \<lparr>StreakCounts.workout =
        count_streak (\<lambda>day. HealthRecord.workout day \<ge> streakWorkoutMin) 0 sortedHealthData,
      StreakCounts.sleep =
        count_streak (\<lambda>day. HealthRecord.sleep day \<ge> streakSleepMin) 0 sortedHealthData,
      StreakCounts.steps =
        count_streak (\<lambda>day. HealthRecord.steps day \<ge> streakStepsMin) 0 sortedHealthData\<rparr>"

definition bestStreaks :: "HealthRecord list \<Rightarrow> StreakCounts" where
  "bestStreaks sortedByDate =
     (case foldl best_step ((0, 0), (0, 0), (0, 0)) sortedByDate of (w, sl, stp) \<Rightarrow>
        \<lparr>StreakCounts.workout = fst w, StreakCounts.sleep = fst sl, StreakCounts.steps = fst stp\<rparr>)"

text \<open>The object returned when one of the two arrays is empty.\<close>

definition zeroMetrics :: Metrics where
  "zeroMetrics =
     \<lparr>health = \<lparr>avgSteps = Fin 0, avgSleep = Fin 0, avgEnergy = Fin 0, avgWorkout = Fin 0,
                 workoutDays = 0, totalDays = None\<rparr>,
      screenTime = \<lparr>topApps = [], topCategories = [], dailyTotals = [], avgDaily = Fin 0\<rparr>,
      wellness = \<lparr>score = Fin 0, stepsScore = Fin 0, sleepScore = Fin 0, workoutScore = Fin 0,
                   screenTimeScore = Fin 0, weeklyScore = Fin 0, weeklyChange = Fin 0\<rparr>,
      streaks = \<lparr>current = \<lparr>StreakCounts.workout = 0, StreakCounts.sleep = 0,
                             StreakCounts.steps = 0\<rparr>,
                  best = \<lparr>StreakCounts.workout = 0, StreakCounts.sleep = 0,
                          StreakCounts.steps = 0\<rparr>\<rparr>\<rparr>"

text \<open>
  The function. The averages of the previous seven days, which the source computes and
  never uses, are left out. The two sorts of the streak section work on copies of
  \<open>healthData\<close>; the heap model further down makes the copies explicit.
\<close>

definition computeMetrics :: "Runtime \<Rightarrow> HealthRecord list \<Rightarrow> ScreenTimeRecord list \<Rightarrow> Metrics" where
  "computeMetrics rt healthData screenTimeData =
     (if length healthData = 0 \<or> length screenTimeData = 0 then zeroMetrics
      else
        let totalDays = length healthData;
            avgSteps = avg_rounded HealthRecord.steps healthData totalDays;
            avgSleep = avg_rounded HealthRecord.sleep healthData totalDays;
            avgEnergy = avg_rounded HealthRecord.energy healthData totalDays;
            avgWorkout = avg_rounded HealthRecord.workout healthData totalDays;
            workoutDays = length (filter (\<lambda>d. HealthRecord.workout d > 0) healthData);
            appTotals = fst (screenTime_totals screenTimeData);
            categoryTotals = fst (snd (screenTime_totals screenTimeData));
            dailyTotals = snd (snd (screenTime_totals screenTimeData));
            dailyTotalsArray = dailyTotalsArray_of rt dailyTotals;
            avgDaily = avg_rounded DateTotal.total dailyTotalsArray (length dailyTotalsArray);
            stepsScore = sub_score avgSteps idealSteps;
            sleepScore = sub_score avgSleep idealSleep;
            workoutScore = sub_score avgWorkout idealWorkout;
            screenTimeScore = screen_score avgDaily;
            wellnessScore = weighted_score stepsScore sleepScore workoutScore screenTimeScore;
            last7Days = Array_slice_from healthData (- 7);
            last7StepsScore = sub_score (window_avg HealthRecord.steps last7Days) idealSteps;
            last7SleepScore = sub_score (window_avg HealthRecord.sleep last7Days) idealSleep;
            last7WorkoutScore = sub_score (window_avg HealthRecord.workout last7Days) idealWorkout;
            last7ScreenTimeScore = screen_score (window_avgScreenTime last7Days screenTimeData);
            last7WellnessScore =
              weighted_score last7StepsScore last7SleepScore last7WorkoutScore last7ScreenTimeScore;
            weeklyChange = js_sub last7WellnessScore wellnessScore;
            sortedHealthData = Array_sort (by_date_desc rt) healthData;
            sortedByDate = Array_sort (by_date_asc rt) healthData
        in \<lparr>health = \<lparr>avgSteps = avgSteps, avgSleep = avgSleep, avgEnergy = avgEnergy,
                       avgWorkout = avgWorkout, workoutDays = workoutDays,
                       totalDays = Some totalDays\<rparr>,
            screenTime = \<lparr>topApps = topApps_of appTotals,
                           topCategories = topCategories_of categoryTotals,
                           dailyTotals = dailyTotalsArray, avgDaily = avgDaily\<rparr>,
            wellness = \<lparr>score = wellnessScore, stepsScore = stepsScore, sleepScore = sleepScore,
                         workoutScore = workoutScore, screenTimeScore = screenTimeScore,
                         weeklyScore = last7WellnessScore, weeklyChange = weeklyChange\<rparr>,
            streaks = \<lparr>current = currentStreaks sortedHealthData,
                        best = bestStreaks sortedByDate\<rparr>\<rparr>)"

subsection \<open>The arrays of \<open>computeMetrics\<close> as objects of a heap\<close>

text \<open>
  The arguments of \<open>computeMetrics\<close> are references to array objects. The only method
  of the function that writes to its receiver is \<open>sort\<close>, which sorts in place; the
  two calls that could reach \<open>healthData\<close> are made on \<open>[...healthData]\<close>, a newly
  allocated array with the same elements. (The other sorted arrays are fresh arrays of
  entries, of another type.) The heap holds the array objects by address; everything
  that only reads the arrays is taken from \<open>computeMetrics\<close>.
\<close>

record Heap =
  health_arrays :: "HealthRecord list list"
  screen_arrays :: "ScreenTimeRecord list list"

definition spread :: "nat \<Rightarrow> Heap \<Rightarrow> nat \<times> Heap" where
  "spread a h =
     (length (health_arrays h),
      h\<lparr>health_arrays := health_arrays h @ [health_arrays h ! a]\<rparr>)"

definition sort_in_place :: "(HealthRecord \<Rightarrow> HealthRecord \<Rightarrow> jsnum) \<Rightarrow> nat \<Rightarrow> Heap \<Rightarrow> Heap" where
  "sort_in_place cmp a h =
     h\<lparr>health_arrays := (health_arrays h)[a := Array_sort cmp (health_arrays h ! a)]\<rparr>"

definition computeMetrics_heap :: "Runtime \<Rightarrow> nat \<Rightarrow> nat \<Rightarrow> Heap \<Rightarrow> Metrics \<times> Heap" where
  "computeMetrics_heap rt healthData screenTimeData h =
     (if length (health_arrays h ! healthData) = 0 \<or> length (screen_arrays h ! screenTimeData) = 0
      then (zeroMetrics, h)
      else
        let pure = computeMetrics rt (health_arrays h ! healthData)
                     (screen_arrays h ! screenTimeData);
            (copy1, h1) = spread healthData h;
            h2 = sort_in_place (by_date_desc rt) copy1 h1;
            sortedHealthData = health_arrays h2 ! copy1;
            (copy2, h3) = spread healthData h2;
            h4 = sort_in_place (by_date_asc rt) copy2 h3;
            sortedByDate = health_arrays h4 ! copy2
        in (pure\<lparr>streaks := \<lparr>current = currentStreaks sortedHealthData,
                               best = bestStreaks sortedByDate\<rparr>\<rparr>, h4))"

section \<open>The insight extractor (utils/llm.js)\<close>

record DateMinutes =
  date :: string
  minutes :: rat

record DateValue =
  date :: string
  val :: rat

record BucketStats =
  days :: nat
  totalMinutes :: rat
  avgMinutes :: jsnum
  dailyBreakdown :: "DateMinutes list"

record WeekdayWeekendStats =
  appName :: string
  weekday :: BucketStats
  weekend :: BucketStats

record TrendStats =
  recent30Days :: jsnum
  previous30Days :: jsnum
  change :: jsnum
  percentChange :: jsnum
  trend :: string
  dailyValues :: "DateValue list"

record ExerciseSleep =
  avgSleepWithWorkout :: jsnum
  avgSleepNoWorkout :: jsnum
  difference :: jsnum
  workoutDays :: nat
  noWorkoutDays :: nat

text \<open>
  The sparse object \<open>insights\<close>: a key that was never assigned is \<open>None\<close>; an assigned
  key holds \<open>Some v\<close>, where \<open>v\<close> is again \<open>None\<close> when the value assigned is
  \<open>undefined\<close> (the first element of an empty ranking) or \<open>null\<close> (no trend).
\<close>

record Insights =
  mostUsedApp :: "AppMinutes option option"
  topApps :: "AppMinutes list option"
  leastUsedApp :: "AppMinutes option option"
  bottomApps :: "AppMinutes list option"
  appWeekdayWeekend :: "WeekdayWeekendStats option"
  stepsTrend :: "TrendStats option option"
  sleepTrend :: "TrendStats option option"
  workoutTrend :: "TrendStats option option"
  exerciseSleepRelationship :: "ExerciseSleep option"

definition isWeekend :: "Runtime \<Rightarrow> string \<Rightarrow> bool" where
  "isWeekend rt dateStr = (let day = Date_getDay rt dateStr in day = Fin 0 \<or> day = Fin 6)"




text \<open>The \<open>forEach\<close> that pushes each record of the app on one of the two arrays.\<close>

definition bucket_step ::
  "Runtime \<Rightarrow> DateMinutes list \<times> DateMinutes list \<Rightarrow> ScreenTimeRecord
   \<Rightarrow> DateMinutes list \<times> DateMinutes list" where
  "bucket_step rt acc item =
     (case acc of (weekdayData, weekendData) \<Rightarrow>
        if isWeekend rt (ScreenTimeRecord.date item)
        then (weekdayData,
              weekendData @ [\<lparr>DateMinutes.date = ScreenTimeRecord.date item,
                               DateMinutes.minutes = ScreenTimeRecord.minutes item\<rparr>])
        else (weekdayData @ [\<lparr>DateMinutes.date = ScreenTimeRecord.date item,
                               DateMinutes.minutes = ScreenTimeRecord.minutes item\<rparr>],
              weekendData))"

definition bucketStats :: "Runtime \<Rightarrow> DateMinutes list \<Rightarrow> BucketStats" where
  "bucketStats rt bucket =
     (let bucketTotal = foldl (\<lambda>sum d. sum + DateMinutes.minutes d) 0 bucket;
          bucketAvg = (if length bucket > 0
                       then Math_round (js_div (Fin bucketTotal) (Fin (of_nat (length bucket))))
                       else Fin 0)
      in \<lparr>days = length bucket, totalMinutes = bucketTotal, avgMinutes = bucketAvg,
          dailyBreakdown =
            Array_sort (\<lambda>a b. localeCompare rt (DateMinutes.date a) (DateMinutes.date b)) bucket\<rparr>)"

definition computeAppWeekdayWeekendStats ::
  "Runtime \<Rightarrow> string \<Rightarrow> ScreenTimeRecord list \<Rightarrow> WeekdayWeekendStats" where
  "computeAppWeekdayWeekendStats rt name screenTimeData =
     (let appData = filter (\<lambda>item. toLowerCase (ScreenTimeRecord.app item) = toLowerCase name)
                      screenTimeData;
          buckets = foldl (bucket_step rt) ([], []) appData
      in \<lparr>appName = name, weekday = bucketStats rt (fst buckets),
          weekend = bucketStats rt (snd buckets)\<rparr>)"

text \<open>\<open>d[metric]\<close> is the selector of the field named by \<open>metric\<close>.\<close>

definition computeTrendStats :: "HealthRecord list \<Rightarrow> (HealthRecord \<Rightarrow> rat) \<Rightarrow> TrendStats option" where
  "computeTrendStats healthData metric =
     (let recent30 = Array_slice_from healthData (- 30);
          previous30 = Array_slice healthData (- 60) (- 30)
      in if length previous30 = 0 then None
         else
           let recentAvg = avg_rounded metric recent30 (length recent30);
               previousAvg = avg_rounded metric previous30 (length previous30);
               delta = js_sub recentAvg previousAvg;
               percent = (if js_gt previousAvg (Fin 0)
                          then Math_round (js_mul (js_div delta previousAvg) (Fin 100))
                          else Fin 0)
           in Some \<lparr>recent30Days = recentAvg, previous30Days = previousAvg, change = delta,
                    percentChange = percent,
                    trend = (if js_gt delta (Fin 0) then ''increasing''
                             else if js_lt delta (Fin 0) then ''decreasing'' else ''stable''),
                    dailyValues = map (\<lambda>d. \<lparr>DateValue.date = HealthRecord.date d,
                                               val = metric d\<rparr>) recent30\<rparr>)"

text \<open>The comparator \<open>(a, b) => b.minutes - a.minutes\<close>, read for its sign as above.\<close>

definition by_minutes_desc :: "AppMinutes \<Rightarrow> AppMinutes \<Rightarrow> jsnum" where
  "by_minutes_desc a b = Fin (AppMinutes.minutes b - AppMinutes.minutes a)"

definition computeAllAppTotals :: "ScreenTimeRecord list \<Rightarrow> AppMinutes list" where
  "computeAllAppTotals screenTimeData =
     (let appTotals = foldl (\<lambda>obj item. add_total obj (ScreenTimeRecord.app item)
                                           (ScreenTimeRecord.minutes item)) [] screenTimeData
      in Array_sort by_minutes_desc
           (map (\<lambda>(a, m). \<lparr>AppMinutes.app = a, AppMinutes.minutes = m\<rparr>)
              (Object_entries appTotals)))"



section \<open>Notions used in the statements\<close>

text \<open>The minutes of all the records of one app.\<close>

definition app_total :: "ScreenTimeRecord list \<Rightarrow> string \<Rightarrow> rat" where
  "app_total screenTimeData a =
     sum_list (map ScreenTimeRecord.minutes
                 (filter (\<lambda>r. ScreenTimeRecord.app r = a) screenTimeData))"

text \<open>
  The dates of a health array are valid when each of them parses to a finite time
  value, which is then the record's \<open>date_key\<close>; they are unique when no two records
  have the same time value, and the array is chronological when the time values
  increase strictly along it.
\<close>

definition date_key :: "Runtime \<Rightarrow> HealthRecord \<Rightarrow> rat" where
  "date_key rt r = (case Date_value rt (HealthRecord.date r) of Fin t \<Rightarrow> t | _ \<Rightarrow> 0)"

definition valid_dates :: "Runtime \<Rightarrow> HealthRecord list \<Rightarrow> bool" where
  "valid_dates rt healthData =
     list_all (\<lambda>r. case Date_value rt (HealthRecord.date r) of Fin t \<Rightarrow> True | _ \<Rightarrow> False)
       healthData"

definition unique_dates :: "Runtime \<Rightarrow> HealthRecord list \<Rightarrow> bool" where
  "unique_dates rt healthData = (valid_dates rt healthData \<and> distinct (map (date_key rt) healthData))"

definition chronological :: "Runtime \<Rightarrow> HealthRecord list \<Rightarrow> bool" where
  "chronological rt healthData =
     (valid_dates rt healthData \<and> sorted_wrt (<) (map (date_key rt) healthData))"

text \<open>The days that count for a streak.\<close>

definition workout_day :: "HealthRecord \<Rightarrow> bool" where
  "workout_day d = (HealthRecord.workout d \<ge> 15)"

definition sleep_day :: "HealthRecord \<Rightarrow> bool" where
  "sleep_day d = (HealthRecord.sleep d \<ge> 420)"

definition steps_day :: "HealthRecord \<Rightarrow> bool" where
  "steps_day d = (HealthRecord.steps d \<ge> 8000)"

text \<open>
  \<open>n\<close> is the length of the longest run of consecutive elements of \<open>xs\<close> that all
  satisfy \<open>p\<close>: some run has this length, and no run is longer.
\<close>

definition longest_run :: "('a \<Rightarrow> bool) \<Rightarrow> 'a list \<Rightarrow> nat \<Rightarrow> bool" where
  "longest_run p xs n =
     ((\<exists>before run after. xs = before @ run @ after \<and> list_all p run \<and> length run = n)
      \<and> (\<forall>before run after. xs = before @ run @ after \<and> list_all p run \<longrightarrow> length run \<le> n))"

text \<open>
  The order in which \<open>Object.entries\<close> enumerates the app names of a screen-time
  array: the names that are array indices first, by ascending numeric value, then the
  other names in the order of their first occurrence.
\<close>

definition app_enumeration :: "ScreenTimeRecord list \<Rightarrow> string list" where
  "app_enumeration screenTimeData =
     (let names = Set_of (map ScreenTimeRecord.app screenTimeData)
      in sort_key digits_value (filter is_array_index names)
         @ filter (\<lambda>a. \<not> is_array_index a) names)"

definition app_entry :: "ScreenTimeRecord list \<Rightarrow> string \<Rightarrow> AppMinutes" where
  "app_entry screenTimeData a =
     \<lparr>AppMinutes.app = a, AppMinutes.minutes = app_total screenTimeData a\<rparr>"

text \<open>A sub-score between 0 and 100: a finite number in that interval.\<close>

definition in_0_100 :: "jsnum \<Rightarrow> bool" where
  "in_0_100 x = (case x of Fin v \<Rightarrow> 0 \<le> v \<and> v \<le> 100 | _ \<Rightarrow> False)"

text \<open>
  \<open>Math.min(100, x)\<close>, written with the minimum of two rationals; and the numbers that
  are not negative: a finite number from 0 on, or plus infinity.
\<close>

definition at_most_100 :: "jsnum \<Rightarrow> jsnum" where
  "at_most_100 x =
     (case x of Fin v \<Rightarrow> Fin (min 100 v) | PosInf \<Rightarrow> Fin 100 | NegInf \<Rightarrow> NegInf | NaN \<Rightarrow> NaN)"

definition nonneg_num :: "jsnum \<Rightarrow> bool" where
  "nonneg_num x = (case x of Fin v \<Rightarrow> 0 \<le> v | PosInf \<Rightarrow> True | _ \<Rightarrow> False)"

text \<open>
  The values of a field are counts when they are whole numbers, none of them negative,
  and their sum is below \<open>2^53\<close>: every partial sum is then a double, and the sum that
  \<open>reduce\<close> computes is the exact sum. The keys of a totals object are plain when none
  of them names a property of \<open>Object.prototype\<close>.
\<close>

definition counts :: "('a \<Rightarrow> rat) \<Rightarrow> 'a list \<Rightarrow> bool" where
  "counts f xs =
     (list_all (\<lambda>d. 0 \<le> f d \<and> of_int \<lfloor>f d\<rfloor> = f d) xs \<and> sum_list (map f xs) < 2 ^ 53)"

definition plain_keys :: "string list \<Rightarrow> bool" where
  "plain_keys ks = list_all (\<lambda>k. k \<notin> set Object_prototype_names) ks"

subsection \<open>A concrete runtime and concrete records\<close>

text \<open>
  The instances below run in a browser whose time zone is UTC, on dates of the first
  two weeks of January 2024 in ISO format: 1 January 2024 was a Monday and has the time
  value 1704067200000 ms. Any other string is an invalid date there. Strings are
  compared by their character codes, which is how \<open>localeCompare\<close> orders such dates.
\<close>

definition january_2024 :: "string list" where
  "january_2024 =
     [''2024-01-01'', ''2024-01-02'', ''2024-01-03'', ''2024-01-04'', ''2024-01-05'',
      ''2024-01-06'', ''2024-01-07'', ''2024-01-08'', ''2024-01-09'', ''2024-01-10'',
      ''2024-01-11'', ''2024-01-12'', ''2024-01-13'', ''2024-01-14'']"

fun index_of :: "'a \<Rightarrow> 'a list \<Rightarrow> nat option" where
  "index_of x [] = None"
| "index_of x (y # ys) =
     (if x = y then Some 0 else (case index_of x ys of None \<Rightarrow> None | Some i \<Rightarrow> Some (i + 1)))"

fun compare_strings :: "string \<Rightarrow> string \<Rightarrow> jsnum" where
  "compare_strings [] [] = Fin 0"
| "compare_strings [] (b # bs) = Fin (- 1)"
| "compare_strings (a # as) [] = Fin 1"
| "compare_strings (a # as) (b # bs) =
     (if (of_char a :: nat) < of_char b then Fin (- 1)
      else if (of_char b :: nat) < of_char a then Fin 1
      else compare_strings as bs)"

definition utc_runtime :: Runtime where
  "utc_runtime =
     \<lparr>Date_value = (\<lambda>s. case index_of s january_2024 of
                           Some i \<Rightarrow> Fin (1704067200000 + 86400000 * of_nat i)
                         | None \<Rightarrow> NaN),
      Date_getDay = (\<lambda>s. case index_of s january_2024 of
                            Some i \<Rightarrow> Fin (of_nat ((i + 1) mod 7))
                          | None \<Rightarrow> NaN),
      localeCompare = compare_strings\<rparr>"

text \<open>
  The same dates in a browser whose time zone is that of New York, five hours behind
  UTC in January. A date-only string is parsed as midnight UTC, which is 19:00 of the
  day before in New York: the time value is the same, and \<open>getDay\<close> answers for the day
  before. 31 December 2023 was a Sunday.
\<close>

definition new_york_runtime :: Runtime where
  "new_york_runtime =
     \<lparr>Date_value = (\<lambda>s. case index_of s january_2024 of
                           Some i \<Rightarrow> Fin (1704067200000 + 86400000 * of_nat i)
                         | None \<Rightarrow> NaN),
      Date_getDay = (\<lambda>s. case index_of s january_2024 of
                            Some i \<Rightarrow> Fin (of_nat (i mod 7))
                          | None \<Rightarrow> NaN),
      localeCompare = compare_strings\<rparr>"

definition health_record :: "string \<Rightarrow> rat \<Rightarrow> rat \<Rightarrow> rat \<Rightarrow> HealthRecord" where
  "health_record d st sl w =
     \<lparr>HealthRecord.date = d, HealthRecord.steps = st, HealthRecord.sleep = sl,
       HealthRecord.energy = 400, HealthRecord.workout = w\<rparr>"

definition screen_record :: "string \<Rightarrow> string \<Rightarrow> rat \<Rightarrow> ScreenTimeRecord" where
  "screen_record d a m =
     \<lparr>ScreenTimeRecord.date = d, ScreenTimeRecord.app = a, ScreenTimeRecord.minutes = m,
       ScreenTimeRecord.category = ''Social''\<rparr>"

text \<open>
  Two days that average exactly 10000 steps, 480 minutes of sleep and 30 minutes of
  workout, with 240 minutes of screen time on each of the two days; and two days of
  50000 steps.
\<close>

definition balanced_health :: "HealthRecord list" where
  "balanced_health =
     [health_record ''2024-01-01'' 12000 500 40, health_record ''2024-01-02'' 8000 460 20]"

definition balanced_screen :: "ScreenTimeRecord list" where
  "balanced_screen =
     [screen_record ''2024-01-01'' ''A'' 100, screen_record ''2024-01-01'' ''B'' 140,
      screen_record ''2024-01-02'' ''A'' 240]"

definition marathon_health :: "HealthRecord list" where
  "marathon_health =
     [health_record ''2024-01-01'' 60000 1000 300, health_record ''2024-01-02'' 40000 0 0]"

text \<open>
  A day of 3075 steps, 406 minutes of sleep and 15 minutes of workout, with 250 minutes
  of screen time: the weighted sum of the sub-scores is 61.5 in exact arithmetic.
\<close>

definition halfway_health :: "HealthRecord list" where
  "halfway_health = [health_record ''2024-01-01'' 3075 406 15]"

definition halfway_screen :: "ScreenTimeRecord list" where
  "halfway_screen = [screen_record ''2024-01-01'' ''A'' 250]"

text \<open>
  Six days in chronological order, with a workout of 20 minutes on each of the first
  five and none on the last; and three days that are not in chronological order.
\<close>

definition five_then_rest :: "HealthRecord list" where
  "five_then_rest =
     [health_record ''2024-01-01'' 9000 450 20, health_record ''2024-01-02'' 8500 400 20,
      health_record ''2024-01-03'' 7000 430 20, health_record ''2024-01-04'' 8000 480 20,
      health_record ''2024-01-05'' 12000 420 20, health_record ''2024-01-06'' 9000 440 0]"

definition shuffled_health :: "HealthRecord list" where
  "shuffled_health =
     [health_record ''2024-01-03'' 9000 450 20, health_record ''2024-01-01'' 8500 400 0,
      health_record ''2024-01-02'' 7000 430 30]"

text \<open>
  Thirty-one days: none with steps on the first, 5000 steps on each of the thirty that
  follow.
\<close>

definition rising_health :: "HealthRecord list" where
  "rising_health =
     health_record ''2024-01-01'' 0 400 0 # replicate 30 (health_record ''2024-01-02'' 5000 400 0)"

text \<open>
  Sixty days that go from 200 to 229 steps: the change is 14.5 percent in exact
  arithmetic.
\<close>

definition slow_rise_health :: "HealthRecord list" where
  "slow_rise_health =
     replicate 30 (health_record ''2024-01-02'' 200 400 0)
     @ replicate 30 (health_record ''2024-01-03'' 229 400 0)"

text \<open>
  Two apps with the same total, the second of them named by a numeral; and records whose
  totals per app are A: 100, B: 250, C: 40.
\<close>

definition tied_screen :: "ScreenTimeRecord list" where
  "tied_screen =
     [screen_record ''2024-01-01'' ''A'' 10, screen_record ''2024-01-01'' ''2048'' 10]"

definition abc_screen :: "ScreenTimeRecord list" where
  "abc_screen =
     [screen_record ''2024-01-01'' ''A'' 60, screen_record ''2024-01-01'' ''B'' 250,
      screen_record ''2024-01-02'' ''C'' 40, screen_record ''2024-01-02'' ''A'' 40]"

text \<open>The use of one app on Saturday, 6 January 2024.\<close>

definition saturday_screen :: "ScreenTimeRecord list" where
  "saturday_screen = [screen_record ''2024-01-06'' ''Instagram'' 50]"

section \<open>Rounding to a double\<close>

lemma bitlen_pos: "0 < m \<Longrightarrow> 1 \<le> bitlen m"
  by (simp add: bitlen_alt_def)

lemma exponent_le:
  assumes "x \<noteq> 0"
  shows "2 powi (exponent x) \<le> \<bar>x\<bar>"
proof (cases "1 \<le> \<bar>x\<bar>")
  case True
  define m where "m = \<lfloor>\<bar>x\<bar>\<rfloor>"
  have m: "0 < m" using True by (simp add: m_def)
  have "2 ^ nat (bitlen m - 1) \<le> m" using bitlen_bounds [OF m] by simp
  then have "(of_int (2 ^ nat (bitlen m - 1)) :: rat) \<le> of_int m" by (simp only: of_int_le_iff)
  also have "\<dots> \<le> \<bar>x\<bar>" by (simp add: m_def)
  finally have "(2 :: rat) ^ nat (bitlen m - 1) \<le> \<bar>x\<bar>" by simp
  moreover have "0 \<le> bitlen m - 1" using bitlen_pos [OF m] by simp
  ultimately show ?thesis using True by (simp add: exponent_def power_int_def m_def)
next
  case False
  define m where "m = \<lceil>1 / \<bar>x\<bar>\<rceil>"
  define k where "k = bitlen (m - 1)"
  have pos: "0 < \<bar>x\<bar>" using assms by simp
  have "1 < 1 / \<bar>x\<bar>" using False pos by (simp add: field_simps)
  then have m: "1 < m" by (simp add: m_def less_ceiling_iff)
  have "m - 1 < 2 ^ nat k" using bitlen_bounds [of "m - 1"] m by (simp add: k_def)
  then have "m \<le> 2 ^ nat k" by simp
  then have "(of_int m :: rat) \<le> of_int (2 ^ nat k)" by (simp only: of_int_le_iff)
  then have "(of_int m :: rat) \<le> 2 ^ nat k" by simp
  moreover have "1 / \<bar>x\<bar> \<le> of_int m" by (simp add: m_def)
  ultimately have "1 / \<bar>x\<bar> \<le> 2 ^ nat k" by linarith
  then have le: "1 / 2 ^ nat k \<le> \<bar>x\<bar>" using pos by (simp add: field_simps)
  have k: "0 \<le> k" by (simp add: k_def bitlen_nonneg)
  have "2 powi (- k) = 1 / (2 :: rat) ^ nat k"
    using k by (simp add: power_int_minus power_int_def field_simps)
  then show ?thesis using False le by (simp add: exponent_def m_def k_def)
qed

lemma exponent_less:
  assumes "x \<noteq> 0"
  shows "\<bar>x\<bar> < 2 powi (exponent x + 1)"
proof (cases "1 \<le> \<bar>x\<bar>")
  case True
  define m where "m = \<lfloor>\<bar>x\<bar>\<rfloor>"
  have m: "0 < m" using True by (simp add: m_def)
  have b: "1 \<le> bitlen m" using bitlen_pos [OF m] .
  have "m < 2 ^ nat (bitlen m)" using bitlen_bounds [OF m] by simp
  then have "m + 1 \<le> 2 ^ nat (bitlen m)" by simp
  then have "(of_int (m + 1) :: rat) \<le> of_int (2 ^ nat (bitlen m))" by (simp only: of_int_le_iff)
  then have "(of_int m :: rat) + 1 \<le> 2 ^ nat (bitlen m)" by simp
  moreover have "\<bar>x\<bar> < of_int m + 1"
    using floor_correct [of "\<bar>x\<bar>"] by (simp add: m_def)
  ultimately have "\<bar>x\<bar> < 2 ^ nat (bitlen m)" by linarith
  then show ?thesis using True b by (simp add: exponent_def power_int_def m_def)
next
  case False
  define m where "m = \<lceil>1 / \<bar>x\<bar>\<rceil>"
  define k where "k = bitlen (m - 1)"
  have pos: "0 < \<bar>x\<bar>" using assms by simp
  have "1 < 1 / \<bar>x\<bar>" using False pos by (simp add: field_simps)
  then have m: "1 < m" by (simp add: m_def less_ceiling_iff)
  then have k: "1 \<le> k" using bitlen_pos [of "m - 1"] by (simp add: k_def)
  have "2 ^ nat (k - 1) \<le> m - 1" using bitlen_bounds [of "m - 1"] m by (simp add: k_def)
  then have "(of_int (2 ^ nat (k - 1)) :: rat) \<le> of_int (m - 1)" by (simp only: of_int_le_iff)
  then have "(2 :: rat) ^ nat (k - 1) \<le> of_int m - 1" by simp
  moreover have "of_int m - 1 < 1 / \<bar>x\<bar>"
    using ceiling_correct [of "1 / \<bar>x\<bar>"] by (simp add: m_def)
  ultimately have "(2 :: rat) ^ nat (k - 1) < 1 / \<bar>x\<bar>" by linarith
  then have less: "\<bar>x\<bar> < 1 / 2 ^ nat (k - 1)" using pos by (simp add: field_simps)
  have "2 powi (- k + 1) = 1 / (2 :: rat) ^ nat (k - 1)"
  proof (cases "k = 1")
    case True
    then show ?thesis by simp
  next
    case False
    then have "- k + 1 < 0" using k by simp
    moreover have "nat (- (- k + 1)) = nat (k - 1)" by simp
    ultimately show ?thesis by (simp add: power_int_def field_simps)
  qed
  then show ?thesis using False less by (simp add: exponent_def m_def k_def)
qed

lemma ulp_pos: "0 < ulp x"
  by (simp add: ulp_def)

lemma round_half_even_le:
  assumes "y \<le> of_int N"
  shows "round_half_even y \<le> N"
proof -
  have f: "\<lfloor>y\<rfloor> \<le> N" using assms by (simp add: floor_le_iff)
  show ?thesis
  proof (cases "\<lfloor>y\<rfloor> = N")
    case True
    then have "y - of_int \<lfloor>y\<rfloor> \<le> 0" using assms by simp
    then have "y - of_int \<lfloor>y\<rfloor> < 1 / 2" by linarith
    then show ?thesis using True by (simp add: round_half_even_def Let_def)
  next
    case False
    then have "\<lfloor>y\<rfloor> + 1 \<le> N" using f by simp
    then show ?thesis by (simp add: round_half_even_def Let_def)
  qed
qed

lemma round_half_even_ge:
  assumes "of_int N \<le> y"
  shows "N \<le> round_half_even y"
proof -
  have "N \<le> \<lfloor>y\<rfloor>" using assms by (simp add: le_floor_iff)
  then show ?thesis by (simp add: round_half_even_def Let_def)
qed

lemma round_half_even_int: "round_half_even (of_int z) = z"
  by (simp add: round_half_even_def)

lemma round_half_even_error: "\<bar>of_int (round_half_even y) - y\<bar> \<le> 1 / 2"
  using floor_correct [of y] unfolding round_half_even_def Let_def
  by (auto simp: abs_le_iff)

lemma nearest_double_error: "\<bar>nearest_double x - x\<bar> \<le> ulp x / 2"
proof (cases "x = 0")
  case True
  then show ?thesis using ulp_pos [of 0] by (simp add: nearest_double_def)
next
  case False
  have u: "0 < ulp x" by (rule ulp_pos)
  have "nearest_double x - x = (of_int (round_half_even (x / ulp x)) - x / ulp x) * ulp x"
    using False u by (simp add: nearest_double_def field_simps)
  then have "\<bar>nearest_double x - x\<bar> = \<bar>of_int (round_half_even (x / ulp x)) - x / ulp x\<bar> * ulp x"
    using u by (simp add: abs_mult)
  also have "\<dots> \<le> 1 / 2 * ulp x"
    using round_half_even_error [of "x / ulp x"] u by (simp only: mult_right_mono less_imp_le)
  finally show ?thesis by simp
qed

lemma nearest_double_nonneg: "0 \<le> x \<Longrightarrow> 0 \<le> nearest_double x"
  using round_half_even_ge [of 0 "x / ulp x"] ulp_pos [of x]
  by (simp add: nearest_double_def)

lemma nearest_double_nonpos: "x \<le> 0 \<Longrightarrow> nearest_double x \<le> 0"
  using round_half_even_le [of "x / ulp x" 0] ulp_pos [of x]
  by (simp add: nearest_double_def mult_le_0_iff divide_le_0_iff)

lemma nearest_double_bounded:
  assumes "\<bar>x\<bar> \<le> 2 ^ n"
  shows "\<bar>nearest_double x\<bar> \<le> 2 ^ n"
proof (cases "x = 0")
  case True
  then show ?thesis by (simp add: nearest_double_def)
next
  case False
  define e where "e = max (exponent x) (- 1022) - 52"
  define N :: int where "N = 2 ^ nat (int n - e)"
  have "2 powi (exponent x) \<le> (2 :: rat) powi (int n)"
    using exponent_le [OF False] assms by simp
  then have "exponent x \<le> int n"
    by (rule power_int_le_imp_le_exp [rotated]) simp_all
  then have e: "e \<le> int n" by (simp add: e_def)
  have u: "ulp x = 2 powi e" by (simp add: ulp_def e_def)
  have "(2 :: rat) powi (int n) = 2 powi (int n - e) * 2 powi e"
    using power_int_add [of "2 :: rat" "int n - e" e] by simp
  then have N: "(2 :: rat) ^ n = of_int N * ulp x"
    using e by (simp add: u N_def power_int_def)
  have up: "0 < ulp x" by (rule ulp_pos)
  have "x \<le> of_int N * ulp x" "- (of_int N * ulp x) \<le> x"
    using assms N by (simp_all add: abs_le_iff)
  then have "x / ulp x \<le> of_int N" "of_int (- N) \<le> x / ulp x"
    using up by (simp_all add: field_simps)
  then have "round_half_even (x / ulp x) \<le> N" "- N \<le> round_half_even (x / ulp x)"
    by (simp_all only: round_half_even_le round_half_even_ge)
  then have "\<bar>round_half_even (x / ulp x)\<bar> \<le> N" by simp
  then have "\<bar>(of_int (round_half_even (x / ulp x)) :: rat)\<bar> \<le> of_int N"
    by (metis of_int_abs of_int_le_iff)
  then have "\<bar>of_int (round_half_even (x / ulp x)) * ulp x\<bar> \<le> of_int N * ulp x"
    using up by (simp add: abs_mult)
  then show ?thesis using False N by (simp add: nearest_double_def)
qed

lemma to_double_bounded:
  assumes "\<bar>x\<bar> \<le> 2 ^ n" and "n \<le> 1023"
  shows "to_double x = Fin (nearest_double x)"
proof -
  have "\<bar>nearest_double x\<bar> \<le> 2 ^ n" using assms(1) by (rule nearest_double_bounded)
  moreover have "(2 :: rat) ^ n < 2 ^ 1024"
  proof -
    have "n < 1024" using assms(2) by simp
    then show ?thesis by (rule power_strict_increasing) simp
  qed
  ultimately have "\<bar>nearest_double x\<bar> < 2 ^ 1024" by linarith
  then show ?thesis by (simp add: to_double_def Let_def abs_less_iff)
qed

lemma exponent_eq:
  assumes "2 powi e \<le> \<bar>x\<bar>" and "\<bar>x\<bar> < 2 powi (e + 1)"
  shows "x \<noteq> 0" and "exponent x = e"
proof -
  show x0: "x \<noteq> 0"
  proof
    assume "x = 0"
    then have "2 powi e \<le> (0 :: rat)" using assms(1) by simp
    moreover have "(0 :: rat) < 2 powi e" by simp
    ultimately show False by linarith
  qed
  have "(2 :: rat) powi (exponent x) < 2 powi (e + 1)"
    using exponent_le [OF x0] assms(2) by linarith
  then have 1: "exponent x < e + 1"
    using power_int_increasing [of "e + 1" "exponent x" "2 :: rat"]
    by (cases "exponent x < e + 1") auto
  have "(2 :: rat) powi e < 2 powi (exponent x + 1)"
    using exponent_less [OF x0] assms(1) by linarith
  then have 2: "e < exponent x + 1"
    using power_int_increasing [of "exponent x + 1" e "2 :: rat"]
    by (cases "e < exponent x + 1") auto
  from 1 2 show "exponent x = e" by simp
qed

lemma round_half_even_eq:
  assumes "\<bar>y - of_int k\<bar> < 1 / 2"
  shows "round_half_even y = k"
proof -
  have "\<bar>(of_int (round_half_even y) :: rat) - of_int k\<bar> < 1"
    using round_half_even_error [of y] assms by linarith
  then have "\<bar>(of_int (round_half_even y - k) :: rat)\<bar> < of_int 1" by simp
  then have "\<bar>round_half_even y - k\<bar> < 1" by (simp only: of_int_abs [symmetric] of_int_less_iff)
  then show ?thesis by simp
qed

lemma round_half_even_tie:
  assumes "\<bar>y - of_int k\<bar> = 1 / 2" and "even k"
  shows "round_half_even y = k"
proof -
  consider "y = of_int k + 1 / 2" | "y = of_int (k - 1) + 1 / 2"
    using assms(1) by (auto simp: abs_if split: if_splits)
  then show ?thesis
  proof cases
    case 1
    then have "\<lfloor>y\<rfloor> = k" by linarith
    then show ?thesis using 1 assms(2) by (simp add: round_half_even_def)
  next
    case 2
    then have "\<lfloor>y\<rfloor> = k - 1" by linarith
    then show ?thesis using 2 assms(2) by (simp add: round_half_even_def)
  qed
qed

text \<open>
  The double next to a given number, from its exponent \<open>e\<close> and the significand \<open>k\<close> of
  the double: \<open>k * 2^(e-52)\<close> is nearer to \<open>x\<close> than half an \<open>ulp\<close>, or at that distance
  with \<open>k\<close> even.
\<close>

lemma nearest_double_eq:
  assumes "2 powi e \<le> \<bar>x\<bar>" and "\<bar>x\<bar> < 2 powi (e + 1)" and "- 1022 \<le> e"
    and "\<bar>x - of_int k * 2 powi (e - 52)\<bar> < 2 powi (e - 52) / 2"
  shows "nearest_double x = of_int k * 2 powi (e - 52)"
proof -
  note x = exponent_eq [OF assms(1,2)]
  have u: "ulp x = 2 powi (e - 52)"
    using assms(3) by (simp add: ulp_def x(2))
  have up: "0 < ulp x" by (rule ulp_pos)
  have "x / ulp x - of_int k = (x - of_int k * ulp x) / ulp x"
    using up by (simp add: field_simps)
  then have "\<bar>x / ulp x - of_int k\<bar> = \<bar>x - of_int k * ulp x\<bar> / ulp x"
    using up by (simp add: abs_divide)
  also have "\<dots> < 1 / 2"
    using assms(4) up by (simp add: u field_simps)
  finally have "round_half_even (x / ulp x) = k" by (rule round_half_even_eq)
  then show ?thesis
    using x(1) by (simp add: nearest_double_def u)
qed

lemma nearest_double_tie:
  assumes "2 powi e \<le> \<bar>x\<bar>" and "\<bar>x\<bar> < 2 powi (e + 1)" and "- 1022 \<le> e"
    and "\<bar>x - of_int k * 2 powi (e - 52)\<bar> = 2 powi (e - 52) / 2" and "even k"
  shows "nearest_double x = of_int k * 2 powi (e - 52)"
proof -
  note x = exponent_eq [OF assms(1,2)]
  have u: "ulp x = 2 powi (e - 52)"
    using assms(3) by (simp add: ulp_def x(2))
  have up: "0 < ulp x" by (rule ulp_pos)
  have "x / ulp x - of_int k = (x - of_int k * ulp x) / ulp x"
    using up by (simp add: field_simps)
  then have "\<bar>x / ulp x - of_int k\<bar> = \<bar>x - of_int k * ulp x\<bar> / ulp x"
    using up by (simp add: abs_divide)
  also have "\<dots> = 1 / 2"
    using assms(4) up by (simp add: u field_simps)
  finally have "round_half_even (x / ulp x) = k" using assms(5) by (rule round_half_even_tie)
  then show ?thesis
    using x(1) by (simp add: nearest_double_def u)
qed

lemma to_double_eq:
  assumes "2 powi e \<le> \<bar>x\<bar>" and "\<bar>x\<bar> < 2 powi (e + 1)" and "- 1022 \<le> e"
    and "\<bar>x - of_int k * 2 powi (e - 52)\<bar> < 2 powi (e - 52) / 2"
    and "\<bar>x\<bar> \<le> 2 ^ n" and "n \<le> 1023"
  shows "to_double x = Fin (of_int k * 2 powi (e - 52))"
  using to_double_bounded [OF assms(5,6)] nearest_double_eq [OF assms(1-4)] by simp

lemma to_double_tie:
  assumes "2 powi e \<le> \<bar>x\<bar>" and "\<bar>x\<bar> < 2 powi (e + 1)" and "- 1022 \<le> e"
    and "\<bar>x - of_int k * 2 powi (e - 52)\<bar> = 2 powi (e - 52) / 2" and "even k"
    and "\<bar>x\<bar> \<le> 2 ^ n" and "n \<le> 1023"
  shows "to_double x = Fin (of_int k * 2 powi (e - 52))"
  using to_double_bounded [OF assms(6,7)] nearest_double_tie [OF assms(1-5)] by simp

lemma nearest_double_whole:
  assumes "\<bar>k\<bar> \<le> 2 ^ 53"
  shows "nearest_double (of_int k) = of_int k"
proof (cases "k = 0")
  case True
  then show ?thesis by (simp add: nearest_double_def)
next
  case False
  define x :: rat where "x = of_int k"
  define e where "e = max (exponent x) (- 1022) - 52"
  have x0: "x \<noteq> 0" using False by (simp add: x_def)
  have "(of_int \<bar>k\<bar> :: rat) \<le> of_int (2 ^ 53)" using assms by (simp only: of_int_le_iff)
  then have ax: "\<bar>x\<bar> \<le> 2 ^ 53" by (simp add: x_def)
  have "2 powi (exponent x) \<le> (2 :: rat) powi 53"
    using exponent_le [OF x0] ax by simp
  then have e53: "exponent x \<le> 53"
    by (rule power_int_le_imp_le_exp [rotated]) simp_all
  have u: "ulp x = 2 powi e" by (simp add: ulp_def e_def)
  have "\<exists>z :: int. x / ulp x = of_int z"
  proof (cases "e \<le> 0")
    case True
    have "x / ulp x = x * 2 powi (- e)" by (simp add: u power_int_minus field_simps)
    also have "2 powi (- e) = (2 :: rat) ^ nat (- e)" using True by (simp add: power_int_def)
    finally have "x / ulp x = of_int (k * 2 ^ nat (- e))" by (simp add: x_def)
    then show ?thesis ..
  next
    case False
    then have e: "e = 1" and ex: "exponent x = 53" using e53 by (simp_all add: e_def)
    have "(2 :: rat) ^ 53 \<le> \<bar>x\<bar>" using exponent_le [OF x0] by (simp add: ex)
    then have "\<bar>x\<bar> = 2 ^ 53" using ax by simp
    then have "(of_int \<bar>k\<bar> :: rat) = of_int (2 ^ 53)" by (simp add: x_def)
    then have "\<bar>k\<bar> = 2 ^ 53" by (simp only: of_int_eq_iff)
    then consider "k = 2 ^ 53" | "k = - (2 ^ 53)" by linarith
    moreover have ux: "x / ulp x = x / 2" by (simp add: u e)
    ultimately show ?thesis
    proof cases
      case 1
      then have "x / 2 = of_int (2 ^ 52)" by (simp add: x_def)
      with ux have "x / ulp x = of_int (2 ^ 52)" by (simp only:)
      then show ?thesis ..
    next
      case 2
      then have "x / 2 = of_int (- (2 ^ 52))" by (simp add: x_def)
      with ux have "x / ulp x = of_int (- (2 ^ 52))" by (simp only:)
      then show ?thesis ..
    qed
  qed
  then obtain z :: int where z: "x / ulp x = of_int z" ..
  have "nearest_double x = of_int z * ulp x"
    using x0 by (simp add: nearest_double_def z round_half_even_int)
  also have "\<dots> = x" using z ulp_pos [of x] by (simp add: field_simps)
  finally show ?thesis by (simp add: x_def)
qed

lemma to_double_whole:
  assumes "\<bar>k\<bar> \<le> 2 ^ 53"
  shows "to_double (of_int k) = Fin (of_int k)"
proof -
  have "(of_int \<bar>k\<bar> :: rat) \<le> of_int (2 ^ 53)" using assms by (simp only: of_int_le_iff)
  then have "\<bar>of_int k :: rat\<bar> \<le> 2 ^ 53" by simp
  then have "to_double (of_int k) = Fin (nearest_double (of_int k))"
    by (rule to_double_bounded) simp
  then show ?thesis by (simp only: nearest_double_whole [OF assms])
qed

lemma nearest_double_numeral:
  "numeral w \<le> (2 :: int) ^ 53 \<Longrightarrow> nearest_double (numeral w) = numeral w"
  using nearest_double_whole [of "numeral w"] by simp

lemma to_double_numeral:
  "numeral w \<le> (2 :: int) ^ 53 \<Longrightarrow> to_double (numeral w) = Fin (numeral w)"
  using to_double_whole [of "numeral w"] by simp

lemma to_double_0: "to_double 0 = Fin 0"
  using to_double_whole [of 0] by simp

lemma to_double_1: "to_double 1 = Fin 1"
  using to_double_whole [of 1] by simp

lemma nonneg_to_double: "0 \<le> x \<Longrightarrow> nonneg_num (to_double x)"
  using nearest_double_nonneg [of x] by (auto simp: to_double_def Let_def nonneg_num_def)

lemma nonneg_Math_round: "nonneg_num x \<Longrightarrow> nonneg_num (Math_round x)"
proof (cases x)
  case (Fin v)
  assume "nonneg_num x"
  then have "0 \<le> v" by (simp add: Fin nonneg_num_def)
  then have "0 \<le> \<lfloor>v + 1 / 2\<rfloor>" by simp
  then show ?thesis by (simp add: Fin nonneg_num_def)
qed (simp_all add: nonneg_num_def)

lemma nonneg_js_div:
  assumes "nonneg_num x" and "0 < b"
  shows "nonneg_num (js_div x (Fin b))"
proof (cases x)
  case (Fin v)
  then have "0 \<le> v / b" using assms by (simp add: nonneg_num_def)
  then show ?thesis using assms(2) by (simp add: Fin nonneg_to_double)
qed (use assms in \<open>simp_all add: nonneg_num_def\<close>)

lemma nonneg_js_mul:
  assumes "nonneg_num x" and "0 < b"
  shows "nonneg_num (js_mul x (Fin b))"
proof (cases x)
  case (Fin v)
  then have "0 \<le> v * b" using assms by (simp add: nonneg_num_def)
  then show ?thesis by (simp add: Fin nonneg_to_double)
qed (use assms in \<open>simp_all add: nonneg_num_def\<close>)

lemma Math_min_100: "Math_min (Fin 100) x = at_most_100 x"
  by (cases x) (simp_all add: at_most_100_def)

section \<open>Facts about the runtime functions\<close>


lemma foldl_add_sum_list: "foldl (\<lambda>sum d. sum + f d) a xs = a + sum_list (map f xs)"
  for a :: rat
  by (induction xs arbitrary: a) (simp_all add: add.assoc)

lemma avg_rounded_Fin:
  "0 < n \<Longrightarrow> avg_rounded f xs n = Math_round (to_double (sum_list (map f xs) / of_nat n))"
  by (simp add: avg_rounded_def foldl_add_sum_list)

lemma floor_int_half: "\<lfloor>(of_int c :: rat) + 1 / 2\<rfloor> = c"
  by linarith

lemma sum_list_nonneg_list_all:
  "list_all (\<lambda>x. 0 \<le> f x) xs \<Longrightarrow> 0 \<le> sum_list (map f xs)"
  for f :: "'a \<Rightarrow> rat"
  by (induction xs) simp_all

lemma divide_le_self:
  fixes a b :: rat
  assumes "0 \<le> a" and "1 \<le> b"
  shows "a / b \<le> a"
proof -
  have "a * 1 \<le> a * b" using assms by (intro mult_left_mono)
  then show ?thesis using assms(2) by (simp add: divide_le_eq)
qed

lemma avg_rounded_whole:
  assumes "0 < n" and "0 \<le> sum_list (map f xs)" and "sum_list (map f xs) \<le> 2 ^ 53"
  shows "avg_rounded f xs n =
      Fin (of_int \<lfloor>nearest_double (sum_list (map f xs) / of_nat n) + 1 / 2\<rfloor>)"
    and "0 \<le> \<lfloor>nearest_double (sum_list (map f xs) / of_nat n) + 1 / 2\<rfloor>"
    and "\<lfloor>nearest_double (sum_list (map f xs) / of_nat n) + 1 / 2\<rfloor> \<le> 2 ^ 53"
proof -
  define q where "q = sum_list (map f xs) / of_nat n"
  have n1: "(1 :: rat) \<le> of_nat n" using assms(1) by simp
  have q0: "0 \<le> q" using assms(1,2) by (simp add: q_def)
  have "q \<le> sum_list (map f xs)"
    unfolding q_def using assms(2) n1 by (rule divide_le_self)
  then have q1: "\<bar>q\<bar> \<le> 2 ^ 53" using q0 assms(3) by linarith
  have fin: "to_double q = Fin (nearest_double q)"
    using q1 by (rule to_double_bounded) simp
  have v0: "0 \<le> nearest_double q" using q0 by (rule nearest_double_nonneg)
  have "\<bar>nearest_double q\<bar> \<le> 2 ^ 53" using q1 by (rule nearest_double_bounded)
  then have v1: "nearest_double q \<le> of_int (2 ^ 53)" by simp
  show "avg_rounded f xs n = Fin (of_int \<lfloor>nearest_double q + 1 / 2\<rfloor>)"
    by (simp add: avg_rounded_Fin [OF assms(1)] fin flip: q_def)
  show "0 \<le> \<lfloor>nearest_double q + 1 / 2\<rfloor>" using v0 by simp
  have "\<lfloor>nearest_double q + 1 / 2\<rfloor> \<le> \<lfloor>(of_int (2 ^ 53) :: rat) + 1 / 2\<rfloor>"
    using v1 by (intro floor_mono) simp
  then show "\<lfloor>nearest_double q + 1 / 2\<rfloor> \<le> 2 ^ 53"
    by (simp only: floor_int_half)
qed


lemma map_of_obj_set: "map_of (obj_set obj k v) = (map_of obj)(k \<mapsto> v)"
  by (induction obj) (auto simp: fun_eq_iff)

lemma keys_obj_set:
  "map fst (obj_set obj k v) = (if k \<in> set (map fst obj) then map fst obj else map fst obj @ [k])"
  by (induction obj) auto

lemma sum_obj_set:
  "sum_list (map snd (obj_set obj k v)) =
     sum_list (map snd obj) - (case map_of obj k of None \<Rightarrow> 0 | Some a \<Rightarrow> a) + v"
  for v :: rat
  by (induction obj) auto

lemma sum_add_total: "sum_list (map snd (add_total obj k m)) = sum_list (map snd obj) + m"
  by (simp add: add_total_def sum_obj_set obj_get_def split: option.split)

lemma keys_add_total: "map fst (add_total obj k m) = Set_add (map fst obj) k"
  by (simp add: add_total_def keys_obj_set)

lemma map_of_add_total:
  "map_of (add_total obj k m) =
     (map_of obj)(k \<mapsto> (case map_of obj k of None \<Rightarrow> 0 | Some a \<Rightarrow> a) + m)"
  by (simp add: add_total_def map_of_obj_set obj_get_def split: option.split)

lemma sum_totals:
  "sum_list (map snd (foldl (\<lambda>obj item. add_total obj (k item) (v item)) obj xs)) =
     sum_list (map snd obj) + sum_list (map v xs)"
  by (induction xs arbitrary: obj) (simp_all add: sum_add_total)

lemma keys_totals:
  "map fst (foldl (\<lambda>obj item. add_total obj (k item) (v item)) obj xs) =
     foldl Set_add (map fst obj) (map k xs)"
  by (induction xs arbitrary: obj) (simp_all add: keys_add_total del: Set_add.simps)

lemma distinct_foldl_Set_add: "distinct acc \<Longrightarrow> distinct (foldl Set_add acc xs)"
  by (induction xs arbitrary: acc) simp_all

lemma set_foldl_Set_add: "set (foldl Set_add acc xs) = set acc \<union> set xs"
  by (induction xs arbitrary: acc) auto

lemma distinct_Set_of: "distinct (Set_of xs)"
  by (simp add: Set_of_def distinct_foldl_Set_add)

lemma set_Set_of: "set (Set_of xs) = set xs"
  by (simp add: Set_of_def set_foldl_Set_add)

lemma length_Set_of: "length (Set_of xs) = length (remdups xs)"
  by (metis distinct_Set_of set_Set_of distinct_card length_remdups_card_conv)

lemma map_of_totals:
  "map_of (foldl (\<lambda>obj item. add_total obj (k item) (v item)) obj xs) a =
     (if a \<in> fst ` set obj \<union> k ` set xs
      then Some ((case map_of obj a of None \<Rightarrow> 0 | Some b \<Rightarrow> b)
                 + sum_list (map v (filter (\<lambda>i. k i = a) xs)))
      else None)"
proof (induction xs arbitrary: obj)
  case Nil
  then show ?case by (auto simp: map_of_eq_None_iff split: option.split)
next
  case (Cons x xs)
  show ?case
    by (simp add: Cons.IH map_of_add_total keys_add_total [THEN arg_cong, of set, simplified]
        image_iff split: option.split)
qed


lemma distinct_keys_totals:
  "distinct (map fst obj) \<Longrightarrow>
   distinct (map fst (foldl (\<lambda>obj item. add_total obj (k item) (v item)) obj xs))"
  by (simp add: keys_totals distinct_foldl_Set_add)

lemma distinct_keys_eq:
  "distinct (map fst obj) \<Longrightarrow> obj = map (\<lambda>a. (a, the (map_of obj a))) (map fst obj)"
proof (induction obj)
  case Nil
  then show ?case by simp
next
  case (Cons p ps)
  obtain a b where p: "p = (a, b)" by (cases p)
  have na: "a \<notin> set (map fst ps)" and d: "distinct (map fst ps)"
    using Cons.prems p by simp_all
  have IH: "ps = map (\<lambda>x. (x, the (map_of ps x))) (map fst ps)"
    using Cons.IH d by blast
  have eq: "map (\<lambda>x. (x, the (map_of (p # ps) x))) (map fst ps) =
      map (\<lambda>x. (x, the (map_of ps x))) (map fst ps)"
  proof (rule map_cong [OF refl])
    fix x assume "x \<in> set (map fst ps)"
    then have "x \<noteq> a" using na by auto
    then show "(x, the (map_of (p # ps) x)) = (x, the (map_of ps x))" by (simp add: p)
  qed
  have "map (\<lambda>x. (x, the (map_of (p # ps) x))) (map fst (p # ps)) =
      (a, b) # map (\<lambda>x. (x, the (map_of (p # ps) x))) (map fst ps)"
    by (simp add: p)
  also have "\<dots> = (a, b) # ps"
    using eq IH by metis
  finally show ?case by (simp only: p)
qed

lemma totals_eq:
  "foldl (\<lambda>obj item. add_total obj (k item) (v item)) [] xs =
     map (\<lambda>a. (a, sum_list (map v (filter (\<lambda>i. k i = a) xs)))) (Set_of (map k xs))"
proof -
  let ?t = "foldl (\<lambda>obj item. add_total obj (k item) (v item)) [] xs"
  have keys: "map fst ?t = Set_of (map k xs)"
    by (simp add: keys_totals Set_of_def)
  have "distinct (map fst ?t)"
    by (rule distinct_keys_totals) simp
  then have "?t = map (\<lambda>a. (a, the (map_of ?t a))) (map fst ?t)"
    by (rule distinct_keys_eq)
  also have "\<dots> = map (\<lambda>a. (a, the (map_of ?t a))) (Set_of (map k xs))"
    by (simp only: keys)
  also have "\<dots> = map (\<lambda>a. (a, sum_list (map v (filter (\<lambda>i. k i = a) xs)))) (Set_of (map k xs))"
    by (intro map_cong refl) (simp add: map_of_totals set_Set_of)
  finally show ?thesis .
qed

lemma screenTime_totals_app:
  "fst (foldl totals_step (a, c, d) xs) =
     foldl (\<lambda>obj item. add_total obj (ScreenTimeRecord.app item) (ScreenTimeRecord.minutes item)) a xs"
  by (induction xs arbitrary: a c d) (simp_all add: totals_step_def)

lemma screenTime_totals_category:
  "fst (snd (foldl totals_step (a, c, d) xs)) =
     foldl (\<lambda>obj item. add_total obj (ScreenTimeRecord.category item) (ScreenTimeRecord.minutes item)) c xs"
  by (induction xs arbitrary: a c d) (simp_all add: totals_step_def)

lemma screenTime_totals_date:
  "snd (snd (foldl totals_step (a, c, d) xs)) =
     foldl (\<lambda>obj item. add_total obj (ScreenTimeRecord.date item) (ScreenTimeRecord.minutes item)) d xs"
  by (induction xs arbitrary: a c d) (simp_all add: totals_step_def)

lemma mset_Object_entries: "mset (Object_entries obj) = mset obj"
  by (simp add: Object_entries_def)

lemma length_Object_entries: "length (Object_entries obj) = length obj"
  using mset_Object_entries [of obj] by (metis size_mset)

lemma sum_Object_entries: "sum_list (map f (Object_entries obj)) = sum_list (map f obj)"
  for f :: "_ \<Rightarrow> rat"
proof -
  have "sum_mset (image_mset f (mset (Object_entries obj))) = sum_mset (image_mset f (mset obj))"
    by (simp only: mset_Object_entries)
  then show ?thesis by (simp add: sum_mset_sum_list flip: mset_map)
qed

lemma js_insort_mset: "mset (js_insort cmp x ys) = add_mset x (mset ys)"
  by (induction ys) simp_all

lemma mset_Array_sort: "mset (Array_sort cmp xs) = mset xs"
  by (induction xs) (simp_all add: Array_sort_def js_insort_mset)

lemma length_Array_sort: "length (Array_sort cmp xs) = length xs"
  using mset_Array_sort [of cmp xs] by (metis size_mset)

lemma set_Array_sort: "set (Array_sort cmp xs) = set xs"
  using mset_Array_sort [of cmp xs] by (metis set_mset_mset)

lemma sum_list_Array_sort: "sum_list (map f (Array_sort cmp xs)) = sum_list (map f xs)"
  for f :: "'a \<Rightarrow> rat"
proof -
  have "sum_mset (image_mset f (mset (Array_sort cmp xs))) = sum_mset (image_mset f (mset xs))"
    by (simp add: mset_Array_sort)
  then show ?thesis by (simp add: sum_mset_sum_list flip: mset_map)
qed

subsection \<open>The daily totals\<close>

lemma dailyTotalsArray_sum:
  "sum_list (map DateTotal.total
       (dailyTotalsArray_of rt (snd (snd (screenTime_totals screenTimeData))))) =
     sum_list (map ScreenTimeRecord.minutes screenTimeData)"
proof -
  have "sum_list (map DateTotal.total
       (dailyTotalsArray_of rt (snd (snd (screenTime_totals screenTimeData))))) =
     sum_list (map snd (Object_entries (snd (snd (screenTime_totals screenTimeData)))))"
    by (simp add: dailyTotalsArray_of_def sum_list_Array_sort comp_def case_prod_unfold)
  then show ?thesis
    by (simp add: sum_Object_entries screenTime_totals_def screenTime_totals_date sum_totals)
qed

lemma dailyTotalsArray_length:
  "length (dailyTotalsArray_of rt (snd (snd (screenTime_totals screenTimeData)))) =
     length (remdups (map ScreenTimeRecord.date screenTimeData))"
proof -
  have "length (dailyTotalsArray_of rt (snd (snd (screenTime_totals screenTimeData)))) =
      length (map fst (snd (snd (screenTime_totals screenTimeData))))"
    by (simp add: dailyTotalsArray_of_def length_Array_sort length_Object_entries)
  also have "\<dots> = length (Set_of (map ScreenTimeRecord.date screenTimeData))"
    by (simp only: screenTime_totals_def screenTime_totals_date keys_totals) (simp add: Set_of_def)
  finally show ?thesis by (simp add: length_Set_of)
qed

lemma avgDaily_eq:
  assumes "screenTimeData \<noteq> []"
  shows "avg_rounded DateTotal.total
           (dailyTotalsArray_of rt (snd (snd (screenTime_totals screenTimeData))))
           (length (dailyTotalsArray_of rt (snd (snd (screenTime_totals screenTimeData))))) =
         Math_round (to_double (sum_list (map ScreenTimeRecord.minutes screenTimeData)
                / of_nat (length (remdups (map ScreenTimeRecord.date screenTimeData)))))"
proof -
  have "0 < length (remdups (map ScreenTimeRecord.date screenTimeData))"
    using assms by (cases screenTimeData) auto
  then show ?thesis
    by (simp add: avg_rounded_Fin dailyTotalsArray_length dailyTotalsArray_sum)
qed

section \<open>The wellness score\<close>


lemma computeMetrics_health:
  assumes "healthData \<noteq> []" and "screenTimeData \<noteq> []"
  shows "avgSteps (health (computeMetrics rt healthData screenTimeData)) =
           avg_rounded HealthRecord.steps healthData (length healthData)"
    and "avgSleep (health (computeMetrics rt healthData screenTimeData)) =
           avg_rounded HealthRecord.sleep healthData (length healthData)"
    and "avgWorkout (health (computeMetrics rt healthData screenTimeData)) =
           avg_rounded HealthRecord.workout healthData (length healthData)"
  using assms by (simp_all add: computeMetrics_def Let_def)

lemma computeMetrics_avgDaily:
  assumes "healthData \<noteq> []" and "screenTimeData \<noteq> []"
  shows "avgDaily (screenTime (computeMetrics rt healthData screenTimeData)) =
     Math_round (to_double (sum_list (map ScreenTimeRecord.minutes screenTimeData)
                / of_nat (length (remdups (map ScreenTimeRecord.date screenTimeData)))))"
  using assms by (simp add: computeMetrics_def Let_def avgDaily_eq)

lemma computeMetrics_wellness:
  assumes "healthData \<noteq> []" and "screenTimeData \<noteq> []"
  shows "stepsScore (wellness (computeMetrics rt healthData screenTimeData)) =
           sub_score (avgSteps (health (computeMetrics rt healthData screenTimeData))) idealSteps"
    and "sleepScore (wellness (computeMetrics rt healthData screenTimeData)) =
           sub_score (avgSleep (health (computeMetrics rt healthData screenTimeData))) idealSleep"
    and "workoutScore (wellness (computeMetrics rt healthData screenTimeData)) =
           sub_score (avgWorkout (health (computeMetrics rt healthData screenTimeData))) idealWorkout"
    and "screenTimeScore (wellness (computeMetrics rt healthData screenTimeData)) =
           screen_score (avgDaily (screenTime (computeMetrics rt healthData screenTimeData)))"
    and "score (wellness (computeMetrics rt healthData screenTimeData)) =
           weighted_score (stepsScore (wellness (computeMetrics rt healthData screenTimeData)))
             (sleepScore (wellness (computeMetrics rt healthData screenTimeData)))
             (workoutScore (wellness (computeMetrics rt healthData screenTimeData)))
             (screenTimeScore (wellness (computeMetrics rt healthData screenTimeData)))"
  using assms by (simp_all add: computeMetrics_def Let_def)

lemma avg_rounded_exact:
  assumes "0 < n" and "sum_list (map f xs) = of_int c * of_nat n" and "\<bar>c\<bar> \<le> 2 ^ 53"
  shows "avg_rounded f xs n = Fin (of_int c)"
  using assms(1,2) by (simp add: avg_rounded_Fin to_double_whole [OF assms(3)] floor_int_half)

lemma floor_rat_numeral:
  "\<lfloor>(numeral a :: rat) / numeral b\<rfloor> = numeral a div numeral b"
  "\<lfloor>- (numeral a :: rat) / numeral b\<rfloor> = - numeral a div numeral b"
  using floor_divide_of_int_eq [of "numeral a" "numeral b", where ?'a = rat]
    floor_divide_of_int_eq [of "- numeral a" "numeral b", where ?'a = rat]
  by simp_all

text \<open>
  The weights of the score are the doubles next to 0.30, 0.25 and 0.15, none of which
  is one of these decimals.
\<close>

lemma weights:
  "to_double (30 / 100) = Fin (5404319552844595 / 18014398509481984)"
  "to_double (25 / 100) = Fin (1 / 4)"
  "to_double (15 / 100) = Fin (5404319552844595 / 36028797018963968)"
proof -
  have l1: "to_double (30 / 100) = Fin (5404319552844595 / 18014398509481984)"
    using to_double_eq [of "- 2" "30 / 100" 5404319552844595 0] by simp
  have l2: "to_double (25 / 100) = Fin (1 / 4)"
    using to_double_eq [of "- 2" "25 / 100" 4503599627370496 0] by simp
  have l3: "to_double (15 / 100) = Fin (5404319552844595 / 36028797018963968)"
    using to_double_eq [of "- 3" "15 / 100" 5404319552844595 0] by simp
  show "to_double (30 / 100) = Fin (5404319552844595 / 18014398509481984)"
    "to_double (25 / 100) = Fin (1 / 4)"
    "to_double (15 / 100) = Fin (5404319552844595 / 36028797018963968)"
    by (rule l1 l2 l3)+
qed

lemma sub_score_ideal:
  "sub_score (Fin 10000) idealSteps = Fin 100"
  "sub_score (Fin 480) idealSleep = Fin 100"
  "sub_score (Fin 30) idealWorkout = Fin 100"
  "screen_score (Fin 240) = Fin 100"
  "sub_score (Fin 50000) idealSteps = Fin 100"
  by (simp_all add: sub_score_def screen_score_def js_or_def idealSteps_def idealSleep_def
      idealWorkout_def idealScreenTime_def to_double_numeral to_double_1)

lemma weighted_score_100: "weighted_score (Fin 100) (Fin 100) (Fin 100) (Fin 100) = Fin 100"
proof -
  have w1: "to_double (30 / 100) = Fin (5404319552844595 / 18014398509481984)"
    using to_double_eq [of "- 2" "30 / 100" 5404319552844595 0] by simp
  have w2: "to_double (25 / 100) = Fin (1 / 4)"
    using to_double_eq [of "- 2" "25 / 100" 4503599627370496 0] by simp
  have w3: "to_double (15 / 100) = Fin (5404319552844595 / 36028797018963968)"
    using to_double_eq [of "- 3" "15 / 100" 5404319552844595 0] by simp
  have w4: "js_mul (Fin 100) (Fin (5404319552844595 / 18014398509481984)) = Fin 30"
    using to_double_eq [of "4" "100 * (5404319552844595 / 18014398509481984)" 8444249301319680 5] by simp
  have w5: "js_mul (Fin 100) (Fin (1 / 4)) = Fin 25"
    by (simp add: to_double_numeral to_double_0 to_double_1)
  have w6: "js_mul (Fin 100) (Fin (5404319552844595 / 36028797018963968)) = Fin 15"
    using to_double_eq [of "3" "100 * (5404319552844595 / 36028797018963968)" 8444249301319680 4] by simp
  have w7: "js_add (Fin 30) (Fin 30) = Fin 60"
    by (simp add: to_double_numeral to_double_0 to_double_1)
  have w8: "js_add (Fin 60) (Fin 25) = Fin 85"
    by (simp add: to_double_numeral to_double_0 to_double_1)
  have w9: "js_add (Fin 85) (Fin 15) = Fin 100"
    by (simp add: to_double_numeral to_double_0 to_double_1)
  have w10: "Math_round (Fin 100) = Fin 100"
    by (simp add: floor_rat_numeral)
  show ?thesis
    by (simp only: weighted_score_def w1 w2 w3 w4 w5 w6 w7 w8 w9 w10)
qed

text \<open>
  The rounding of the doubles is seen in the score. For averages of 3075 steps, 406
  minutes of sleep, 15 minutes of workout and 250 minutes of screen time the weighted sum
  of the sub-scores is 61.5 in exact arithmetic, which \<open>Math.round\<close> would take to 62;
  the sum of the doubles is just below 61.5, and the score is 61.
\<close>

lemma halfway_steps:
  "js_div (Fin 3075) (Fin 10000) = Fin (2769713770832855 / 9007199254740992)"
  "js_mul (Fin (2769713770832855 / 9007199254740992)) (Fin 100) = Fin (123 / 4)"
  "Math_min (Fin 100) (Fin (123 / 4)) = Fin (123 / 4)"
  "at_most_100 (Fin (123 / 4)) = Fin (123 / 4)"
  "js_div (Fin 406) (Fin 480) = Fin (7618589369635089 / 9007199254740992)"
  "js_mul (Fin (7618589369635089 / 9007199254740992)) (Fin 100) = Fin (5952022945027413 / 70368744177664)"
  "Math_min (Fin 100) (Fin (5952022945027413 / 70368744177664)) = Fin (5952022945027413 / 70368744177664)"
  "at_most_100 (Fin (5952022945027413 / 70368744177664)) = Fin (5952022945027413 / 70368744177664)"
  "js_div (Fin 15) (Fin 30) = Fin (1 / 2)"
  "js_mul (Fin (1 / 2)) (Fin 100) = Fin 50"
  "Math_min (Fin 100) (Fin 50) = Fin 50"
  "at_most_100 (Fin 50) = Fin 50"
  "js_div (Fin 240) (Fin 250) = Fin (1080863910568919 / 1125899906842624)"
  "js_mul (Fin (1080863910568919 / 1125899906842624)) (Fin 100) = Fin 96"
  "Math_min (Fin 100) (Fin 96) = Fin 96"
  "at_most_100 (Fin 96) = Fin 96"
  "to_double (30 / 100) = Fin (5404319552844595 / 18014398509481984)"
  "to_double (25 / 100) = Fin (1 / 4)"
  "to_double (15 / 100) = Fin (5404319552844595 / 36028797018963968)"
  "js_mul (Fin (123 / 4)) (Fin (5404319552844595 / 18014398509481984)) = Fin (5193213320311603 / 562949953421312)"
  "js_mul (Fin (5952022945027413 / 70368744177664)) (Fin (5404319552844595 / 18014398509481984)) = Fin (7142427534032895 / 281474976710656)"
  "js_mul (Fin 50) (Fin (1 / 4)) = Fin (25 / 2)"
  "js_mul (Fin 96) (Fin (5404319552844595 / 36028797018963968)) = Fin (2026619832316723 / 140737488355328)"
  "js_add (Fin (5193213320311603 / 562949953421312)) (Fin (7142427534032895 / 281474976710656)) = Fin (1217379274273587 / 35184372088832)"
  "js_add (Fin (1217379274273587 / 35184372088832)) (Fin (25 / 2)) = Fin (1657183925383987 / 35184372088832)"
  "js_add (Fin (1657183925383987 / 35184372088832)) (Fin (2026619832316723 / 140737488355328)) = Fin (8655355533852671 / 140737488355328)"
  "Math_round (Fin (8655355533852671 / 140737488355328)) = Fin 61"
proof -
  show "js_div (Fin 3075) (Fin 10000) = Fin (2769713770832855 / 9007199254740992)"
    using to_double_eq [of "- 2" "3075 / 10000" 5539427541665710 0] by simp
  show "js_mul (Fin (2769713770832855 / 9007199254740992)) (Fin 100) = Fin (123 / 4)"
    using to_double_eq [of "4" "(2769713770832855 / 9007199254740992) * 100" 8655355533852672 5] by simp
  show "Math_min (Fin 100) (Fin (123 / 4)) = Fin (123 / 4)"
    by simp
  show "at_most_100 (Fin (123 / 4)) = Fin (123 / 4)"
    by (simp add: at_most_100_def)
  show "js_div (Fin 406) (Fin 480) = Fin (7618589369635089 / 9007199254740992)"
    using to_double_eq [of "- 1" "406 / 480" 7618589369635089 0] by simp
  show "js_mul (Fin (7618589369635089 / 9007199254740992)) (Fin 100) = Fin (5952022945027413 / 70368744177664)"
    using to_double_eq [of "6" "(7618589369635089 / 9007199254740992) * 100" 5952022945027413 7] by simp
  show "Math_min (Fin 100) (Fin (5952022945027413 / 70368744177664)) = Fin (5952022945027413 / 70368744177664)"
    by simp
  show "at_most_100 (Fin (5952022945027413 / 70368744177664)) = Fin (5952022945027413 / 70368744177664)"
    by (simp add: at_most_100_def)
  show "js_div (Fin 15) (Fin 30) = Fin (1 / 2)"
    using to_double_eq [of "- 1" "15 / 30" 4503599627370496 0] by simp
  show "js_mul (Fin (1 / 2)) (Fin 100) = Fin 50"
    by (simp add: to_double_numeral to_double_0 to_double_1)
  show "Math_min (Fin 100) (Fin 50) = Fin 50"
    by simp
  show "at_most_100 (Fin 50) = Fin 50"
    by (simp add: at_most_100_def)
  show "js_div (Fin 240) (Fin 250) = Fin (1080863910568919 / 1125899906842624)"
    using to_double_eq [of "- 1" "240 / 250" 8646911284551352 0] by simp
  show "js_mul (Fin (1080863910568919 / 1125899906842624)) (Fin 100) = Fin 96"
    using to_double_eq [of "6" "(1080863910568919 / 1125899906842624) * 100" 6755399441055744 7] by simp
  show "Math_min (Fin 100) (Fin 96) = Fin 96"
    by simp
  show "at_most_100 (Fin 96) = Fin 96"
    by (simp add: at_most_100_def)
  show "to_double (30 / 100) = Fin (5404319552844595 / 18014398509481984)"
    using to_double_eq [of "- 2" "30 / 100" 5404319552844595 0] by simp
  show "to_double (25 / 100) = Fin (1 / 4)"
    using to_double_eq [of "- 2" "25 / 100" 4503599627370496 0] by simp
  show "to_double (15 / 100) = Fin (5404319552844595 / 36028797018963968)"
    using to_double_eq [of "- 3" "15 / 100" 5404319552844595 0] by simp
  show "js_mul (Fin (123 / 4)) (Fin (5404319552844595 / 18014398509481984)) = Fin (5193213320311603 / 562949953421312)"
    using to_double_eq [of "3" "(123 / 4) * (5404319552844595 / 18014398509481984)" 5193213320311603 4] by simp
  show "js_mul (Fin (5952022945027413 / 70368744177664)) (Fin (5404319552844595 / 18014398509481984)) = Fin (7142427534032895 / 281474976710656)"
    using to_double_eq [of "4" "(5952022945027413 / 70368744177664) * (5404319552844595 / 18014398509481984)" 7142427534032895 5] by simp
  show "js_mul (Fin 50) (Fin (1 / 4)) = Fin (25 / 2)"
    using to_double_eq [of "3" "50 * (1 / 4)" 7036874417766400 4] by simp
  show "js_mul (Fin 96) (Fin (5404319552844595 / 36028797018963968)) = Fin (2026619832316723 / 140737488355328)"
    using to_double_tie [of "3" "96 * (5404319552844595 / 36028797018963968)" 8106479329266892 4] by simp
  show "js_add (Fin (5193213320311603 / 562949953421312)) (Fin (7142427534032895 / 281474976710656)) = Fin (1217379274273587 / 35184372088832)"
    using to_double_eq [of "5" "(5193213320311603 / 562949953421312) + (7142427534032895 / 281474976710656)" 4869517097094348 6] by simp
  show "js_add (Fin (1217379274273587 / 35184372088832)) (Fin (25 / 2)) = Fin (1657183925383987 / 35184372088832)"
    using to_double_eq [of "5" "(1217379274273587 / 35184372088832) + (25 / 2)" 6628735701535948 6] by simp
  show "js_add (Fin (1657183925383987 / 35184372088832)) (Fin (2026619832316723 / 140737488355328)) = Fin (8655355533852671 / 140737488355328)"
    using to_double_eq [of "5" "(1657183925383987 / 35184372088832) + (2026619832316723 / 140737488355328)" 8655355533852671 6] by simp
  show "Math_round (Fin (8655355533852671 / 140737488355328)) = Fin 61"
    by (simp add: floor_rat_numeral)
qed

lemma halfway_scores:
  "weighted_score (sub_score (Fin 3075) idealSteps) (sub_score (Fin 406) idealSleep)
     (sub_score (Fin 15) idealWorkout) (screen_score (Fin 250)) = Fin 61"
proof -
  have or: "js_or (Fin 250) (Fin 1) = Fin 250" by (simp add: js_or_def)
  show ?thesis
    by (simp only: weighted_score_def sub_score_def screen_score_def idealSteps_def
        idealSleep_def idealWorkout_def idealScreenTime_def or halfway_steps)
qed

lemma halfway_averages:
  "avgSteps (health (computeMetrics utc_runtime halfway_health halfway_screen)) = Fin 3075"
  "avgSleep (health (computeMetrics utc_runtime halfway_health halfway_screen)) = Fin 406"
  "avgWorkout (health (computeMetrics utc_runtime halfway_health halfway_screen)) = Fin 15"
  "avgDaily (screenTime (computeMetrics utc_runtime halfway_health halfway_screen)) = Fin 250"
proof -
  have ne: "halfway_health \<noteq> []" "halfway_screen \<noteq> []"
    by (simp_all add: halfway_health_def halfway_screen_def)
  show "avgSteps (health (computeMetrics utc_runtime halfway_health halfway_screen)) = Fin 3075"
    "avgSleep (health (computeMetrics utc_runtime halfway_health halfway_screen)) = Fin 406"
    "avgWorkout (health (computeMetrics utc_runtime halfway_health halfway_screen)) = Fin 15"
    unfolding computeMetrics_health [OF ne]
    by (simp_all add: halfway_health_def health_record_def avg_rounded_Fin to_double_numeral
        floor_rat_numeral)
  show "avgDaily (screenTime (computeMetrics utc_runtime halfway_health halfway_screen)) = Fin 250"
    unfolding computeMetrics_avgDaily [OF ne]
    by (simp add: halfway_screen_def screen_record_def to_double_numeral floor_rat_numeral)
qed

lemma score_of_doubles:
  "score (wellness (computeMetrics utc_runtime halfway_health halfway_screen)) = Fin 61"
  "\<lfloor>min 100 (3075 / 10000 * 100) * (30 / 100) + min 100 (406 / 480 * 100) * (30 / 100)
    + min 100 (15 / 30 * 100) * (25 / 100) + min 100 (240 / 250 * 100) * (15 / 100)
    + 1 / 2 :: rat\<rfloor> = 62"
proof -
  have ne: "halfway_health \<noteq> []" "halfway_screen \<noteq> []"
    by (simp_all add: halfway_health_def halfway_screen_def)
  show "score (wellness (computeMetrics utc_runtime halfway_health halfway_screen)) = Fin 61"
    by (simp only: computeMetrics_wellness [OF ne] halfway_averages halfway_scores)
  show "\<lfloor>min 100 (3075 / 10000 * 100) * (30 / 100) + min 100 (406 / 480 * 100) * (30 / 100)
    + min 100 (15 / 30 * 100) * (25 / 100) + min 100 (240 / 250 * 100) * (15 / 100)
    + 1 / 2 :: rat\<rfloor> = 62"
    by simp
qed

text \<open>
  Claim C1. For non-empty inputs each sub-score is \<open>min(100, average / ideal * 100)\<close>,
  where the average is the one the function reports, which is the rounded mean of the
  records when their values are counts (for the screen time, the rounded mean over the
  dates of the minutes of a date), and the ideals are 10000, 480 and 30; the screen-time
  score is \<open>min(100, 240 / avgDaily * 100)\<close> for a positive
  \<open>avgDaily\<close> and 100 for \<open>avgDaily = 0\<close> (in general \<open>avgDaily\<close> is replaced by 1 when it
  is 0 or NaN); and the wellness score is \<open>Math.round\<close> of the sum of the sub-scores
  weighted by 0.30, 0.30, 0.25 and 0.15. Products, quotients and sums are those of
  JavaScript, rounded to doubles. An input whose averages are exactly 10000 steps, 480
  minutes of sleep, 30 minutes of workout and 240 minutes of screen time has the
  wellness score 100.
\<close>

theorem wellness_score_formula:
  assumes "healthData \<noteq> []" and "screenTimeData \<noteq> []"
  shows "let m = computeMetrics rt healthData screenTimeData;
             w = wellness m;
             daily = avgDaily (screenTime m);
             mean = (\<lambda>f. \<lfloor>nearest_double (sum_list (map f healthData)
                                                / of_nat (length healthData)) + 1 / 2\<rfloor>)
         in (counts HealthRecord.steps healthData \<longrightarrow>
               avgSteps (health m) = Fin (of_int (mean HealthRecord.steps)))
          \<and> (counts HealthRecord.sleep healthData \<longrightarrow>
               avgSleep (health m) = Fin (of_int (mean HealthRecord.sleep)))
          \<and> (counts HealthRecord.workout healthData \<longrightarrow>
               avgWorkout (health m) = Fin (of_int (mean HealthRecord.workout)))
          \<and> (counts ScreenTimeRecord.minutes screenTimeData
               \<and> plain_keys (map ScreenTimeRecord.date screenTimeData) \<longrightarrow>
               daily =
                 Fin (of_int \<lfloor>nearest_double
                        (sum_list (map ScreenTimeRecord.minutes screenTimeData)
                         / of_nat (length (remdups (map ScreenTimeRecord.date screenTimeData))))
                      + 1 / 2\<rfloor>))
          \<and> stepsScore w = at_most_100 (js_mul (js_div (avgSteps (health m)) (Fin 10000)) (Fin 100))
          \<and> sleepScore w = at_most_100 (js_mul (js_div (avgSleep (health m)) (Fin 480)) (Fin 100))
          \<and> workoutScore w =
              at_most_100 (js_mul (js_div (avgWorkout (health m)) (Fin 30)) (Fin 100))
          \<and> screenTimeScore w =
              at_most_100 (js_mul (js_div (Fin 240)
                                     (if daily = Fin 0 \<or> daily = NaN then Fin 1 else daily))
                             (Fin 100))
          \<and> (\<forall>a. 0 < a \<and> daily = Fin a \<longrightarrow>
                screenTimeScore w = at_most_100 (js_mul (js_div (Fin 240) (Fin a)) (Fin 100)))
          \<and> (daily = Fin 0 \<longrightarrow> screenTimeScore w = Fin 100)
          \<and> score w =
              Math_round
                (js_add (js_add (js_add (js_mul (stepsScore w) (to_double (30 / 100)))
                                        (js_mul (sleepScore w) (to_double (30 / 100))))
                                (js_mul (workoutScore w) (to_double (25 / 100))))
                        (js_mul (screenTimeScore w) (to_double (15 / 100))))
          \<and> (avgSteps (health m) = Fin 10000 \<and> avgSleep (health m) = Fin 480
               \<and> avgWorkout (health m) = Fin 30 \<and> daily = Fin 240
             \<longrightarrow> score w = Fin 100)"
proof -
  let ?m = "computeMetrics rt healthData screenTimeData"
  let ?d = "avgDaily (screenTime ?m)"
  note well = computeMetrics_wellness [OF assms, of rt]
  note health = computeMetrics_health [OF assms, of rt]
  have n: "0 < length healthData" using assms(1) by simp
  have k: "0 < length (remdups (map ScreenTimeRecord.date screenTimeData))"
    using assms(2) by (cases screenTimeData) auto
  have mean: "avg_rounded f healthData (length healthData) =
      Fin (of_int \<lfloor>nearest_double (sum_list (map f healthData) / of_nat (length healthData))
                    + 1 / 2\<rfloor>)"
    if "counts f healthData" for f
  proof -
    have "0 \<le> sum_list (map f healthData)" "sum_list (map f healthData) \<le> 2 ^ 53"
      using that by (simp_all add: counts_def sum_list_nonneg_list_all list_all_iff)
    then show ?thesis by (rule avg_rounded_whole(1) [OF n])
  qed
  have a1: "avgSteps (health ?m) =
      Fin (of_int \<lfloor>nearest_double (sum_list (map HealthRecord.steps healthData)
                                      / of_nat (length healthData)) + 1 / 2\<rfloor>)"
    if "counts HealthRecord.steps healthData"
    by (simp only: health mean [OF that])
  have a2: "avgSleep (health ?m) =
      Fin (of_int \<lfloor>nearest_double (sum_list (map HealthRecord.sleep healthData)
                                      / of_nat (length healthData)) + 1 / 2\<rfloor>)"
    if "counts HealthRecord.sleep healthData"
    by (simp only: health mean [OF that])
  have a3: "avgWorkout (health ?m) =
      Fin (of_int \<lfloor>nearest_double (sum_list (map HealthRecord.workout healthData)
                                      / of_nat (length healthData)) + 1 / 2\<rfloor>)"
    if "counts HealthRecord.workout healthData"
    by (simp only: health mean [OF that])
  have a4: "?d =
      Fin (of_int \<lfloor>nearest_double
             (sum_list (map ScreenTimeRecord.minutes screenTimeData)
              / of_nat (length (remdups (map ScreenTimeRecord.date screenTimeData))))
           + 1 / 2\<rfloor>)"
    if c: "counts ScreenTimeRecord.minutes screenTimeData
           \<and> plain_keys (map ScreenTimeRecord.date screenTimeData)"
  proof -
    define q where "q = sum_list (map ScreenTimeRecord.minutes screenTimeData)
        / of_nat (length (remdups (map ScreenTimeRecord.date screenTimeData)))"
    have s: "0 \<le> sum_list (map ScreenTimeRecord.minutes screenTimeData)"
      "sum_list (map ScreenTimeRecord.minutes screenTimeData) \<le> 2 ^ 53"
      using c by (simp_all add: counts_def sum_list_nonneg_list_all list_all_iff)
    have "(1 :: rat) \<le> of_nat K" if "0 < K" for K :: nat
      using that by simp
    note k1 = this [OF k]
    have "0 \<le> q" using s(1) by (simp add: q_def)
    moreover have "q \<le> sum_list (map ScreenTimeRecord.minutes screenTimeData)"
      unfolding q_def using s(1) k1 by (rule divide_le_self)
    ultimately have "\<bar>q\<bar> \<le> 2 ^ 53" using s(2) by linarith
    then have "to_double q = Fin (nearest_double q)" by (rule to_double_bounded) simp
    then show ?thesis
      by (simp add: computeMetrics_avgDaily [OF assms, of rt] flip: q_def)
  qed
  have s1: "stepsScore (wellness ?m) =
      at_most_100 (js_mul (js_div (avgSteps (health ?m)) (Fin 10000)) (Fin 100))"
    and s2: "sleepScore (wellness ?m) =
      at_most_100 (js_mul (js_div (avgSleep (health ?m)) (Fin 480)) (Fin 100))"
    and s3: "workoutScore (wellness ?m) =
      at_most_100 (js_mul (js_div (avgWorkout (health ?m)) (Fin 30)) (Fin 100))"
    by (simp_all only: well sub_score_def idealSteps_def idealSleep_def idealWorkout_def
        Math_min_100)
  have guard: "js_or ?d (Fin 1) = (if ?d = Fin 0 \<or> ?d = NaN then Fin 1 else ?d)"
    by (cases ?d) (simp_all add: js_or_def)
  have s4: "screenTimeScore (wellness ?m) =
      at_most_100 (js_mul (js_div (Fin 240) (if ?d = Fin 0 \<or> ?d = NaN then Fin 1 else ?d))
                     (Fin 100))"
    by (simp only: well(4) screen_score_def idealScreenTime_def Math_min_100 guard)
  have s5: "screenTimeScore (wellness ?m) =
      at_most_100 (js_mul (js_div (Fin 240) (Fin a)) (Fin 100))"
    if "0 < a \<and> ?d = Fin a" for a
    using that by (simp add: s4)
  have s6: "screenTimeScore (wellness ?m) = Fin 100" if "?d = Fin 0"
    using that by (simp add: s4 to_double_numeral at_most_100_def)
  have sc: "score (wellness ?m) =
      Math_round
        (js_add (js_add (js_add (js_mul (stepsScore (wellness ?m)) (to_double (30 / 100)))
                                (js_mul (sleepScore (wellness ?m)) (to_double (30 / 100))))
                        (js_mul (workoutScore (wellness ?m)) (to_double (25 / 100))))
                (js_mul (screenTimeScore (wellness ?m)) (to_double (15 / 100))))"
    by (subst well(5)) (simp only: weighted_score_def)
  have ex: "score (wellness ?m) = Fin 100"
    if "avgSteps (health ?m) = Fin 10000 \<and> avgSleep (health ?m) = Fin 480
        \<and> avgWorkout (health ?m) = Fin 30 \<and> ?d = Fin 240"
  proof -
    have "stepsScore (wellness ?m) = Fin 100" "sleepScore (wellness ?m) = Fin 100"
      "workoutScore (wellness ?m) = Fin 100" "screenTimeScore (wellness ?m) = Fin 100"
      using that by (simp_all only: well(1-4) sub_score_ideal)
    then show ?thesis
      by (subst well(5)) (simp only: weighted_score_100)
  qed
  show ?thesis
    unfolding Let_def using a1 a2 a3 a4 s1 s2 s3 s4 s5 s6 sc ex by blast
qed

theorem wellness_score_formula_witness:
  "balanced_health \<noteq> [] \<and> balanced_screen \<noteq> []
   \<and> counts HealthRecord.steps balanced_health \<and> counts HealthRecord.sleep balanced_health
   \<and> counts HealthRecord.workout balanced_health
   \<and> counts ScreenTimeRecord.minutes balanced_screen
   \<and> plain_keys (map ScreenTimeRecord.date balanced_screen)
   \<and> avgSteps (health (computeMetrics utc_runtime balanced_health balanced_screen)) = Fin 10000
   \<and> avgSleep (health (computeMetrics utc_runtime balanced_health balanced_screen)) = Fin 480
   \<and> avgWorkout (health (computeMetrics utc_runtime balanced_health balanced_screen)) = Fin 30
   \<and> avgDaily (screenTime (computeMetrics utc_runtime balanced_health balanced_screen)) = Fin 240
   \<and> screenTimeScore (wellness (computeMetrics utc_runtime balanced_health balanced_screen)) =
       at_most_100 (js_mul (js_div (Fin 240) (Fin 240)) (Fin 100))
   \<and> score (wellness (computeMetrics utc_runtime balanced_health balanced_screen)) = Fin 100
   \<and> halfway_health \<noteq> [] \<and> halfway_screen \<noteq> []
   \<and> avgDaily (screenTime (computeMetrics utc_runtime halfway_health halfway_screen)) = Fin 250
   \<and> score (wellness (computeMetrics utc_runtime halfway_health halfway_screen)) = Fin 61"
proof -
  let ?h = "computeMetrics utc_runtime halfway_health halfway_screen"
  have ne': "halfway_health \<noteq> []" "halfway_screen \<noteq> []"
    by (simp_all add: halfway_health_def halfway_screen_def)
  have pos': "(0 :: rat) < 250" by simp
  note h = wellness_score_formula [OF ne', of utc_runtime, unfolded Let_def halfway_averages]
  from h have s: "stepsScore (wellness ?h) =
        at_most_100 (js_mul (js_div (Fin 3075) (Fin 10000)) (Fin 100))"
    "sleepScore (wellness ?h) = at_most_100 (js_mul (js_div (Fin 406) (Fin 480)) (Fin 100))"
    "workoutScore (wellness ?h) = at_most_100 (js_mul (js_div (Fin 15) (Fin 30)) (Fin 100))"
    by blast+
  from h pos' have t: "screenTimeScore (wellness ?h) =
        at_most_100 (js_mul (js_div (Fin 240) (Fin 250)) (Fin 100))"
    by blast
  from h have sc: "score (wellness ?h) =
      Math_round
        (js_add (js_add (js_add (js_mul (stepsScore (wellness ?h)) (to_double (30 / 100)))
                                (js_mul (sleepScore (wellness ?h)) (to_double (30 / 100))))
                        (js_mul (workoutScore (wellness ?h)) (to_double (25 / 100))))
                (js_mul (screenTimeScore (wellness ?h)) (to_double (15 / 100))))"
    by blast
  have half: "score (wellness ?h) = Fin 61"
    by (simp only: sc s t halfway_steps)
  let ?m = "computeMetrics utc_runtime balanced_health balanced_screen"
  have ne: "balanced_health \<noteq> []" "balanced_screen \<noteq> []"
    by (simp_all add: balanced_health_def balanced_screen_def)
  have c: "counts HealthRecord.steps balanced_health" "counts HealthRecord.sleep balanced_health"
    "counts HealthRecord.workout balanced_health"
    by (simp_all add: counts_def balanced_health_def health_record_def)
  have cs: "counts ScreenTimeRecord.minutes balanced_screen
      \<and> plain_keys (map ScreenTimeRecord.date balanced_screen)"
    by (simp add: counts_def plain_keys_def balanced_screen_def screen_record_def
        Object_prototype_names_def)
  note m = wellness_score_formula [OF ne, of utc_runtime, unfolded Let_def]
  from m c have "avgSteps (health ?m) =
      Fin (of_int \<lfloor>nearest_double (sum_list (map HealthRecord.steps balanced_health)
                                      / of_nat (length balanced_health)) + 1 / 2\<rfloor>)"
    "avgSleep (health ?m) =
      Fin (of_int \<lfloor>nearest_double (sum_list (map HealthRecord.sleep balanced_health)
                                      / of_nat (length balanced_health)) + 1 / 2\<rfloor>)"
    "avgWorkout (health ?m) =
      Fin (of_int \<lfloor>nearest_double (sum_list (map HealthRecord.workout balanced_health)
                                      / of_nat (length balanced_health)) + 1 / 2\<rfloor>)"
    by blast+
  then have a: "avgSteps (health ?m) = Fin 10000" "avgSleep (health ?m) = Fin 480"
    "avgWorkout (health ?m) = Fin 30"
    by (simp_all add: balanced_health_def health_record_def nearest_double_numeral
        floor_rat_numeral)
  from m cs have "avgDaily (screenTime ?m) =
      Fin (of_int \<lfloor>nearest_double
             (sum_list (map ScreenTimeRecord.minutes balanced_screen)
              / of_nat (length (remdups (map ScreenTimeRecord.date balanced_screen))))
           + 1 / 2\<rfloor>)"
    by blast
  then have d: "avgDaily (screenTime ?m) = Fin 240"
    by (simp add: balanced_screen_def screen_record_def nearest_double_numeral
        floor_rat_numeral)
  have pos: "(0 :: rat) < 240" by simp
  from m a d pos
  have "screenTimeScore (wellness ?m) =
       at_most_100 (js_mul (js_div (Fin 240) (Fin 240)) (Fin 100))
     \<and> score (wellness ?m) = Fin 100"
    by blast
  with ne c cs a d ne' halfway_averages(4) half show ?thesis by blast
qed

text \<open>
  Claim C3. When the health array or the screen-time array is empty, \<open>computeMetrics\<close>
  returns the object whose averages, scores, weekly score and change and streak counters
  are all 0 and whose lists are empty. No step of the function can throw: every
  operation of the model is total on arrays of records.
\<close>

theorem computeMetrics_empty_input:
  assumes "healthData = [] \<or> screenTimeData = []"
  shows "computeMetrics rt healthData screenTimeData =
     \<lparr>health = \<lparr>avgSteps = Fin 0, avgSleep = Fin 0, avgEnergy = Fin 0, avgWorkout = Fin 0,
                 workoutDays = 0, totalDays = None\<rparr>,
      screenTime = \<lparr>ScreenTimeMetrics.topApps = [], topCategories = [], dailyTotals = [], avgDaily = Fin 0\<rparr>,
      wellness = \<lparr>score = Fin 0, stepsScore = Fin 0, sleepScore = Fin 0, workoutScore = Fin 0,
                   screenTimeScore = Fin 0, weeklyScore = Fin 0, weeklyChange = Fin 0\<rparr>,
      streaks = \<lparr>current = \<lparr>StreakCounts.workout = 0, StreakCounts.sleep = 0,
                             StreakCounts.steps = 0\<rparr>,
                  best = \<lparr>StreakCounts.workout = 0, StreakCounts.sleep = 0,
                          StreakCounts.steps = 0\<rparr>\<rparr>\<rparr>"
  using assms by (auto simp: computeMetrics_def zeroMetrics_def)

theorem computeMetrics_empty_input_witness:
  "(balanced_health = [] \<or> ([] :: ScreenTimeRecord list) = [])
   \<and> computeMetrics utc_runtime balanced_health [] =
     \<lparr>health = \<lparr>avgSteps = Fin 0, avgSleep = Fin 0, avgEnergy = Fin 0, avgWorkout = Fin 0,
                 workoutDays = 0, totalDays = None\<rparr>,
      screenTime = \<lparr>ScreenTimeMetrics.topApps = [], topCategories = [], dailyTotals = [], avgDaily = Fin 0\<rparr>,
      wellness = \<lparr>score = Fin 0, stepsScore = Fin 0, sleepScore = Fin 0, workoutScore = Fin 0,
                   screenTimeScore = Fin 0, weeklyScore = Fin 0, weeklyChange = Fin 0\<rparr>,
      streaks = \<lparr>current = \<lparr>StreakCounts.workout = 0, StreakCounts.sleep = 0,
                             StreakCounts.steps = 0\<rparr>,
                  best = \<lparr>StreakCounts.workout = 0, StreakCounts.sleep = 0,
                          StreakCounts.steps = 0\<rparr>\<rparr>\<rparr>"
proof -
  have e: "balanced_health = [] \<or> ([] :: ScreenTimeRecord list) = []" by simp
  from computeMetrics_empty_input [OF e, of utc_runtime] e show ?thesis by blast
qed


lemma at_most_100_in_range: "nonneg_num x \<Longrightarrow> in_0_100 (at_most_100 x)"
  by (cases x) (simp_all add: nonneg_num_def at_most_100_def in_0_100_def)

lemma sub_score_in_range:
  assumes "nonneg_num avg" and "0 < ideal"
  shows "in_0_100 (sub_score avg ideal)"
proof -
  have "nonneg_num (js_mul (js_div avg (Fin ideal)) (Fin 100))"
    by (rule nonneg_js_mul [OF nonneg_js_div [OF assms]]) simp
  then show ?thesis
    by (simp only: sub_score_def Math_min_100 at_most_100_in_range)
qed

lemma screen_score_in_range:
  assumes "nonneg_num avg"
  shows "in_0_100 (screen_score avg)"
proof -
  have "nonneg_num (js_div (Fin idealScreenTime) (js_or avg (Fin 1)))"
  proof (cases avg)
    case (Fin a)
    show ?thesis
    proof (cases "a = 0")
      case True
      then show ?thesis
        by (simp add: Fin js_or_def idealScreenTime_def nonneg_to_double)
    next
      case False
      then have "0 \<le> 240 / a" using assms by (simp add: Fin nonneg_num_def)
      then show ?thesis
        using False by (simp add: Fin js_or_def idealScreenTime_def nonneg_to_double)
    qed
  qed (use assms in \<open>simp_all add: nonneg_num_def js_or_def\<close>)
  then have "nonneg_num (js_mul (js_div (Fin idealScreenTime) (js_or avg (Fin 1))) (Fin 100))"
    by (rule nonneg_js_mul) simp
  then show ?thesis
    by (simp only: screen_score_def Math_min_100 at_most_100_in_range)
qed

lemma avg_rounded_nonneg:
  assumes "0 < n" and "0 \<le> sum_list (map f xs)"
  shows "nonneg_num (avg_rounded f xs n)"
proof -
  have "0 \<le> sum_list (map f xs) / of_nat n" using assms by simp
  then show ?thesis
    by (simp only: avg_rounded_Fin [OF assms(1)] nonneg_Math_round nonneg_to_double)
qed

text \<open>
  Claim C5. For non-empty inputs without negative steps, sleep, workout or screen-time
  minutes, each of the four sub-scores is a finite number between 0 and 100; an input
  that averages 50000 steps a day has the steps score 100.
\<close>

theorem sub_scores_clamped:
  assumes "healthData \<noteq> []" and "screenTimeData \<noteq> []"
    and "list_all (\<lambda>d. 0 \<le> HealthRecord.steps d \<and> 0 \<le> HealthRecord.sleep d
                        \<and> 0 \<le> HealthRecord.workout d) healthData"
    and "list_all (\<lambda>r. 0 \<le> ScreenTimeRecord.minutes r) screenTimeData"
  shows "let w = wellness (computeMetrics rt healthData screenTimeData)
         in in_0_100 (stepsScore w) \<and> in_0_100 (sleepScore w) \<and> in_0_100 (workoutScore w)
          \<and> in_0_100 (screenTimeScore w)
          \<and> (sum_list (map HealthRecord.steps healthData) = 50000 * of_nat (length healthData)
             \<longrightarrow> stepsScore w = Fin 100)"
proof -
  let ?m = "computeMetrics rt healthData screenTimeData"
  have n: "0 < length healthData" using assms(1) by simp
  have k: "0 < length (remdups (map ScreenTimeRecord.date screenTimeData))"
    using assms(2) by (cases screenTimeData) auto
  note health = computeMetrics_health [OF assms(1,2), of rt]
  note well = computeMetrics_wellness [OF assms(1,2), of rt]
  note daily = computeMetrics_avgDaily [OF assms(1,2), of rt]
  have "list_all (\<lambda>d. 0 \<le> HealthRecord.steps d) healthData"
    "list_all (\<lambda>d. 0 \<le> HealthRecord.sleep d) healthData"
    "list_all (\<lambda>d. 0 \<le> HealthRecord.workout d) healthData"
    using assms(3) by (simp_all add: list_all_iff)
  then have nn: "0 \<le> sum_list (map HealthRecord.steps healthData)"
    "0 \<le> sum_list (map HealthRecord.sleep healthData)"
    "0 \<le> sum_list (map HealthRecord.workout healthData)"
    by (simp_all add: sum_list_nonneg_list_all)
  have nm: "0 \<le> sum_list (map ScreenTimeRecord.minutes screenTimeData)"
    using assms(4) by (rule sum_list_nonneg_list_all)
  have 1: "in_0_100 (stepsScore (wellness ?m))"
    unfolding well health
    by (rule sub_score_in_range [OF avg_rounded_nonneg [OF n nn(1)]]) (simp add: idealSteps_def)
  have 2: "in_0_100 (sleepScore (wellness ?m))"
    unfolding well health
    by (rule sub_score_in_range [OF avg_rounded_nonneg [OF n nn(2)]]) (simp add: idealSleep_def)
  have 3: "in_0_100 (workoutScore (wellness ?m))"
    unfolding well health
    by (rule sub_score_in_range [OF avg_rounded_nonneg [OF n nn(3)]]) (simp add: idealWorkout_def)
  have "0 \<le> sum_list (map ScreenTimeRecord.minutes screenTimeData)
      / of_nat (length (remdups (map ScreenTimeRecord.date screenTimeData)))"
    using nm by simp
  then have "nonneg_num (avgDaily (screenTime ?m))"
    by (simp only: daily nonneg_Math_round nonneg_to_double)
  then have 4: "in_0_100 (screenTimeScore (wellness ?m))"
    unfolding well by (rule screen_score_in_range)
  have 5: "stepsScore (wellness ?m) = Fin 100"
    if "sum_list (map HealthRecord.steps healthData) = 50000 * of_nat (length healthData)"
  proof -
    have "avgSteps (health ?m) = Fin 50000"
      using avg_rounded_exact [OF n, of HealthRecord.steps healthData 50000] that
      by (simp add: health)
    then show ?thesis by (simp only: well sub_score_ideal)
  qed
  show ?thesis unfolding Let_def using 1 2 3 4 5 by blast
qed

theorem sub_scores_clamped_witness:
  "marathon_health \<noteq> [] \<and> balanced_screen \<noteq> []
   \<and> list_all (\<lambda>d. 0 \<le> HealthRecord.steps d \<and> 0 \<le> HealthRecord.sleep d
                      \<and> 0 \<le> HealthRecord.workout d) marathon_health
   \<and> list_all (\<lambda>r. 0 \<le> ScreenTimeRecord.minutes r) balanced_screen
   \<and> sum_list (map HealthRecord.steps marathon_health) = 50000 * of_nat (length marathon_health)
   \<and> in_0_100 (sleepScore (wellness (computeMetrics utc_runtime marathon_health balanced_screen)))
   \<and> stepsScore (wellness (computeMetrics utc_runtime marathon_health balanced_screen)) = Fin 100"
proof -
  have ne: "marathon_health \<noteq> []" "balanced_screen \<noteq> []"
    by (simp_all add: marathon_health_def balanced_screen_def)
  have nn: "list_all (\<lambda>d. 0 \<le> HealthRecord.steps d \<and> 0 \<le> HealthRecord.sleep d
                      \<and> 0 \<le> HealthRecord.workout d) marathon_health"
    "list_all (\<lambda>r. 0 \<le> ScreenTimeRecord.minutes r) balanced_screen"
    by (simp_all add: marathon_health_def balanced_screen_def health_record_def screen_record_def)
  have s: "sum_list (map HealthRecord.steps marathon_health) = 50000 * of_nat (length marathon_health)"
    by (simp add: marathon_health_def health_record_def)
  from sub_scores_clamped [OF ne nn, of utc_runtime, unfolded Let_def] s
  have "in_0_100 (sleepScore (wellness (computeMetrics utc_runtime marathon_health balanced_screen)))
    \<and> stepsScore (wellness (computeMetrics utc_runtime marathon_health balanced_screen)) = Fin 100"
    by blast
  with ne nn s show ?thesis by blast
qed

section \<open>The habit streaks\<close>


lemma count_streak_takeWhile: "count_streak p n xs = n + length (takeWhile p xs)"
  by (induction xs arbitrary: n) simp_all

lemma best_step_workout:
  "fst (foldl best_step (w, sl, stp) xs) =
     foldl (\<lambda>st d. streak_step (workout_day d) st) w xs"
  by (induction xs arbitrary: w sl stp)
    (simp_all add: best_step_def workout_day_def streakWorkoutMin_def)

lemma best_step_sleep:
  "fst (snd (foldl best_step (w, sl, stp) xs)) =
     foldl (\<lambda>st d. streak_step (sleep_day d) st) sl xs"
  by (induction xs arbitrary: w sl stp)
    (simp_all add: best_step_def sleep_day_def streakSleepMin_def)

lemma best_step_steps:
  "snd (snd (foldl best_step (w, sl, stp) xs)) =
     foldl (\<lambda>st d. streak_step (steps_day d) st) stp xs"
  by (induction xs arbitrary: w sl stp)
    (simp_all add: best_step_def steps_day_def streakStepsMin_def)

lemma bestStreaks_eq:
  "bestStreaks xs =
     \<lparr>StreakCounts.workout = fst (foldl (\<lambda>st d. streak_step (workout_day d) st) (0, 0) xs),
      StreakCounts.sleep = fst (foldl (\<lambda>st d. streak_step (sleep_day d) st) (0, 0) xs),
      StreakCounts.steps = fst (foldl (\<lambda>st d. streak_step (steps_day d) st) (0, 0) xs)\<rparr>"
  by (simp add: bestStreaks_def case_prod_unfold best_step_workout best_step_sleep
      best_step_steps)

lemma currentStreaks_eq:
  "currentStreaks xs =
     \<lparr>StreakCounts.workout = length (takeWhile workout_day xs),
      StreakCounts.sleep = length (takeWhile sleep_day xs),
      StreakCounts.steps = length (takeWhile steps_day xs)\<rparr>"
proof -
  have "(\<lambda>day. streakWorkoutMin \<le> HealthRecord.workout day) = workout_day"
    "(\<lambda>day. streakSleepMin \<le> HealthRecord.sleep day) = sleep_day"
    "(\<lambda>day. streakStepsMin \<le> HealthRecord.steps day) = steps_day"
    by (simp_all add: fun_eq_iff workout_day_def sleep_day_def steps_day_def
        streakWorkoutMin_def streakSleepMin_def streakStepsMin_def)
  then show ?thesis
    by (simp add: currentStreaks_def count_streak_takeWhile)
qed

lemma suffix_run_le:
  assumes "xs = before @ run" and "list_all p run"
  shows "length run \<le> length (takeWhile p (rev xs))"
proof -
  have "takeWhile p (rev run @ rev before) = rev run @ takeWhile p (rev before)"
    using assms(2) by (intro takeWhile_append2) (simp add: list_all_iff)
  then show ?thesis by (simp add: assms(1))
qed

lemma streak_loop:
  "snd (foldl (\<lambda>st d. streak_step (p d) st) (0, 0) xs) = length (takeWhile p (rev xs))
   \<and> longest_run p xs (fst (foldl (\<lambda>st d. streak_step (p d) st) (0, 0) xs))"
proof (induction xs rule: rev_induct)
  case Nil
  show ?case by (simp add: longest_run_def)
next
  case (snoc x xs)
  let ?st = "foldl (\<lambda>st d. streak_step (p d) st) (0, 0) xs"
  obtain b c where st: "?st = (b, c)" by (cases ?st)
  from snoc st have c: "c = length (takeWhile p (rev xs))" and lr: "longest_run p xs b"
    by simp_all
  from lr obtain before run after where
    run: "xs = before @ run @ after" "list_all p run" "length run = b"
    unfolding longest_run_def by blast
  have bound: "length r \<le> b" if "xs = bf @ r @ af" "list_all p r" for bf r af
    using lr that unfolding longest_run_def by blast
  have inner: "length r \<le> b" if "xs @ [x] = bf @ r @ af" "list_all p r" "af \<noteq> []" for bf r af
  proof -
    from that(3) obtain af' y where af: "af = af' @ [y]" by (cases af rule: rev_cases) auto
    with that(1) have "xs = bf @ r @ af'" by (simp flip: append_assoc)
    then show ?thesis using that(2) by (rule bound)
  qed
  have old: "xs @ [x] = before @ run @ (after @ [x])"
    using run(1) by simp
  show ?case
  proof (cases "p x")
    case True
    have new: "xs @ [x] = rev (dropWhile p (rev xs)) @ (rev (takeWhile p (rev xs)) @ [x]) @ []"
      "list_all p (rev (takeWhile p (rev xs)) @ [x])"
      "length (rev (takeWhile p (rev xs)) @ [x]) = c + 1"
      using True c
      by (simp_all add: list_all_iff flip: rev_append) (metis set_takeWhileD)
    have ex: "\<exists>bf r af. xs @ [x] = bf @ r @ af \<and> list_all p r \<and> length r = max b (c + 1)"
    proof (cases "c + 1 \<le> b")
      case True
      then show ?thesis using old run(2,3) by (metis max.absorb1)
    next
      case False
      then have "max b (c + 1) = c + 1" by simp
      then show ?thesis using new by metis
    qed
    have le: "length r \<le> max b (c + 1)" if "xs @ [x] = bf @ r @ af" "list_all p r" for bf r af
    proof (cases "af = []")
      case False
      with that have "length r \<le> b" by (intro inner)
      then show ?thesis by simp
    next
      case af: True
      show ?thesis
      proof (cases r rule: rev_cases)
        case Nil
        then show ?thesis by simp
      next
        case (snoc r' y)
        with that af have "xs = bf @ r'" "list_all p r'" by simp_all
        then have "length r' \<le> c" unfolding c by (rule suffix_run_le)
        with snoc show ?thesis by simp
      qed
    qed
    show ?thesis
      using True ex le by (simp add: st c longest_run_def)
  next
    case False
    have ex: "\<exists>bf r af. xs @ [x] = bf @ r @ af \<and> list_all p r \<and> length r = b"
      using old run(2,3) by blast
    have le: "length r \<le> b" if "xs @ [x] = bf @ r @ af" "list_all p r" for bf r af
    proof (cases "af = []")
      case False
      with that show ?thesis by (intro inner)
    next
      case af: True
      show ?thesis
      proof (cases r rule: rev_cases)
        case Nil
        then show ?thesis by simp
      next
        case (snoc r' y)
        with that af have "y = x" "p y" by simp_all
        with False show ?thesis by simp
      qed
    qed
    show ?thesis
      using False ex le by (simp add: st longest_run_def)
  qed
qed


lemma valid_dates_Fin:
  assumes "valid_dates rt healthData" and "a \<in> set healthData"
  shows "Date_value rt (HealthRecord.date a) = Fin (date_key rt a)"
  using assms
  by (cases "Date_value rt (HealthRecord.date a)")
    (auto simp: valid_dates_def list_all_iff date_key_def)

lemma by_date_asc_gt:
  assumes "valid_dates rt healthData" and "a \<in> set healthData" and "b \<in> set healthData"
  shows "js_gt (by_date_asc rt a b) (Fin 0) = (date_key rt b < date_key rt a)"
    and "js_gt (by_date_desc rt a b) (Fin 0) = (- date_key rt b < - date_key rt a)"
  using valid_dates_Fin [OF assms(1,2)] valid_dates_Fin [OF assms(1,3)]
  by (simp_all add: by_date_asc_def by_date_desc_def)

lemma js_insort_insort_key:
  "\<forall>y \<in> set ys. js_gt (cmp x y) (Fin 0) = (k y < k x) \<Longrightarrow> js_insort cmp x ys = insort_key k x ys"
  for k :: "'a \<Rightarrow> 'b :: linorder"
  by (induction ys) (auto simp: not_less)

lemma Array_sort_sort_key:
  "\<forall>x \<in> set xs. \<forall>y \<in> set xs. js_gt (cmp x y) (Fin 0) = (k y < k x) \<Longrightarrow>
   Array_sort cmp xs = sort_key k xs"
  for k :: "'a \<Rightarrow> 'b :: linorder"
proof (induction xs)
  case Nil
  then show ?case by (simp add: Array_sort_def)
next
  case (Cons x xs)
  then have "Array_sort cmp xs = sort_key k xs" by simp
  moreover have "\<forall>y \<in> set (sort_key k xs). js_gt (cmp x y) (Fin 0) = (k y < k x)"
    using Cons.prems by simp
  ultimately show ?case
    using js_insort_insort_key [of "sort_key k xs" cmp x k]
    by (simp add: Array_sort_def sort_key_def)
qed

lemma sort_by_date_asc:
  "valid_dates rt healthData \<Longrightarrow>
   Array_sort (by_date_asc rt) healthData = sort_key (date_key rt) healthData"
  by (rule Array_sort_sort_key) (simp add: by_date_asc_gt)

lemma sort_by_date_desc:
  "valid_dates rt healthData \<Longrightarrow>
   Array_sort (by_date_desc rt) healthData = sort_key (\<lambda>r. - date_key rt r) healthData"
  by (rule Array_sort_sort_key) (intro ballI by_date_asc_gt(2))

lemma sorted_neg_rev:
  "sorted (map f ys) \<Longrightarrow> sorted (map (\<lambda>x. - f x) (rev ys))"
  for f :: "'a \<Rightarrow> rat"
  by (induction ys) (auto simp: sorted_append)

lemma sort_desc_rev_asc:
  fixes k :: "'a \<Rightarrow> rat"
  assumes "distinct (map k xs)"
  shows "sort_key (\<lambda>r. - k r) xs = rev (sort_key k xs)"
proof (rule sort_key_inj_key_eq)
  show "mset xs = mset (rev (sort_key k xs))" by simp
  have "inj_on k (set xs)" using assms by (simp add: distinct_map)
  then show "inj_on (\<lambda>r. - k r) (set xs)" by (auto simp: inj_on_def)
  show "sorted (map (\<lambda>r. - k r) (rev (sort_key k xs)))"
    by (rule sorted_neg_rev) simp
qed

lemma sorted_copies:
  assumes "unique_dates rt healthData"
  shows "Array_sort (by_date_desc rt) healthData = rev (Array_sort (by_date_asc rt) healthData)"
  using assms by (simp add: unique_dates_def sort_by_date_asc sort_by_date_desc sort_desc_rev_asc)

lemma chronological_sorted:
  assumes "chronological rt healthData"
  shows "Array_sort (by_date_asc rt) healthData = healthData"
    and "Array_sort (by_date_desc rt) healthData = rev healthData"
    and "unique_dates rt healthData"
proof -
  from assms have v: "valid_dates rt healthData"
    and s: "sorted_wrt (<) (map (date_key rt) healthData)"
    by (simp_all add: chronological_def)
  from s have "sorted (map (date_key rt) healthData)" "distinct (map (date_key rt) healthData)"
    by (simp_all add: strict_sorted_iff)
  then show u: "unique_dates rt healthData"
    and a: "Array_sort (by_date_asc rt) healthData = healthData"
    using v by (simp_all add: unique_dates_def sort_by_date_asc sort_key_id_if_sorted)
  show "Array_sort (by_date_desc rt) healthData = rev healthData"
    using sorted_copies [OF u] a by simp
qed

lemma computeMetrics_streaks:
  assumes "healthData \<noteq> []" and "screenTimeData \<noteq> []"
  shows "current (streaks (computeMetrics rt healthData screenTimeData)) =
           currentStreaks (Array_sort (by_date_desc rt) healthData)"
    and "best (streaks (computeMetrics rt healthData screenTimeData)) =
           bestStreaks (Array_sort (by_date_asc rt) healthData)"
  using assms by (simp_all add: computeMetrics_def Let_def)


lemma streak_loop_map:
  "foldl (\<lambda>st d. streak_step (workout_day d) st) a xs =
     foldl (\<lambda>st w. streak_step (15 \<le> w) st) a (map HealthRecord.workout xs)"
  by (simp add: foldl_map workout_day_def)

lemma takeWhile_workout_map:
  "length (takeWhile workout_day (rev xs)) =
     length (takeWhile (\<lambda>w. 15 \<le> w) (rev (map HealthRecord.workout xs)))"
proof -
  have "workout_day = (\<lambda>w. 15 \<le> w) \<circ> HealthRecord.workout"
    by (simp add: fun_eq_iff workout_day_def)
  then show ?thesis by (simp add: rev_map takeWhile_map)
qed

lemma current_le_best:
  "length (takeWhile p (rev xs)) \<le> fst (foldl (\<lambda>st d. streak_step (p d) st) (0, 0) xs)"
proof -
  have "xs = rev (dropWhile p (rev xs)) @ rev (takeWhile p (rev xs)) @ []"
    by (simp flip: rev_append)
  moreover have "list_all p (rev (takeWhile p (rev xs)))"
    by (simp add: list_all_iff) (metis set_takeWhileD)
  moreover have "longest_run p xs (fst (foldl (\<lambda>st d. streak_step (p d) st) (0, 0) xs))"
    using streak_loop [of p xs] by simp
  ultimately have "length (rev (takeWhile p (rev xs)))
      \<le> fst (foldl (\<lambda>st d. streak_step (p d) st) (0, 0) xs)"
    unfolding longest_run_def by blast
  then show ?thesis by simp
qed

text \<open>
  Claim C2, as amended. For a non-empty health array in chronological order and a
  non-empty screen-time array, the current streak of each habit is the number of
  qualifying days counted backwards from the last record up to the first day that fails
  (workout of at least 15 minutes, sleep of at least 420 minutes, at least 8000 steps),
  and the best streak is the length of the longest run of consecutive qualifying days.
  Five days with a workout of 20 minutes followed by a day without workout give the
  current workout streak 0 and the best workout streak 5.
\<close>

theorem streaks_chronological:
  assumes "healthData \<noteq> []" and "screenTimeData \<noteq> []" and "chronological rt healthData"
  shows "let cur = current (streaks (computeMetrics rt healthData screenTimeData));
             bst = best (streaks (computeMetrics rt healthData screenTimeData))
         in StreakCounts.workout cur = length (takeWhile workout_day (rev healthData))
          \<and> StreakCounts.sleep cur = length (takeWhile sleep_day (rev healthData))
          \<and> StreakCounts.steps cur = length (takeWhile steps_day (rev healthData))
          \<and> longest_run workout_day healthData (StreakCounts.workout bst)
          \<and> longest_run sleep_day healthData (StreakCounts.sleep bst)
          \<and> longest_run steps_day healthData (StreakCounts.steps bst)
          \<and> (map HealthRecord.workout healthData = [20, 20, 20, 20, 20, 0]
             \<longrightarrow> StreakCounts.workout cur = 0 \<and> StreakCounts.workout bst = 5)"
proof -
  let ?cur = "current (streaks (computeMetrics rt healthData screenTimeData))"
  let ?bst = "best (streaks (computeMetrics rt healthData screenTimeData))"
  have cur: "?cur = currentStreaks (rev healthData)"
    and bst: "?bst = bestStreaks healthData"
    by (simp_all add: computeMetrics_streaks [OF assms(1,2)] chronological_sorted [OF assms(3)])
  have c: "StreakCounts.workout ?cur = length (takeWhile workout_day (rev healthData))"
    "StreakCounts.sleep ?cur = length (takeWhile sleep_day (rev healthData))"
    "StreakCounts.steps ?cur = length (takeWhile steps_day (rev healthData))"
    by (simp_all add: cur currentStreaks_eq)
  have b: "longest_run workout_day healthData (StreakCounts.workout ?bst)"
    "longest_run sleep_day healthData (StreakCounts.sleep ?bst)"
    "longest_run steps_day healthData (StreakCounts.steps ?bst)"
    using streak_loop [of workout_day healthData] streak_loop [of sleep_day healthData]
      streak_loop [of steps_day healthData]
    by (simp_all add: bst bestStreaks_eq)
  have e: "StreakCounts.workout ?cur = 0 \<and> StreakCounts.workout ?bst = 5"
    if "map HealthRecord.workout healthData = [20, 20, 20, 20, 20, 0]"
  proof
    show "StreakCounts.workout ?cur = 0"
      by (simp add: c(1) takeWhile_workout_map that)
    show "StreakCounts.workout ?bst = 5"
      by (simp add: bst bestStreaks_eq streak_loop_map that)
  qed
  show ?thesis unfolding Let_def using c b e by blast
qed

theorem streaks_chronological_witness:
  "five_then_rest \<noteq> [] \<and> balanced_screen \<noteq> [] \<and> chronological utc_runtime five_then_rest
   \<and> map HealthRecord.workout five_then_rest = [20, 20, 20, 20, 20, 0]
   \<and> StreakCounts.workout
        (current (streaks (computeMetrics utc_runtime five_then_rest balanced_screen))) = 0
   \<and> StreakCounts.workout
        (best (streaks (computeMetrics utc_runtime five_then_rest balanced_screen))) = 5"
proof -
  have ne: "five_then_rest \<noteq> []" "balanced_screen \<noteq> []"
    by (simp_all add: five_then_rest_def balanced_screen_def)
  have chr: "chronological utc_runtime five_then_rest"
    by (simp add: chronological_def valid_dates_def date_key_def utc_runtime_def
        january_2024_def five_then_rest_def health_record_def)
  have w: "map HealthRecord.workout five_then_rest = [20, 20, 20, 20, 20, 0]"
    by (simp add: five_then_rest_def health_record_def)
  from streaks_chronological [OF ne chr, unfolded Let_def] w
  have "StreakCounts.workout
        (current (streaks (computeMetrics utc_runtime five_then_rest balanced_screen))) = 0
   \<and> StreakCounts.workout
        (best (streaks (computeMetrics utc_runtime five_then_rest balanced_screen))) = 5"
    by blast
  with ne chr w show ?thesis by blast
qed

text \<open>
  Claim C2 as it was stated asks nothing of the screen-time array. With an empty one
  the guard of \<open>computeMetrics\<close> returns the zero object, whatever the health array
  holds: the best workout streak of the six days is then 0, not 5.
\<close>

theorem streaks_without_screen_time:
  "five_then_rest \<noteq> [] \<and> chronological utc_runtime five_then_rest
   \<and> map HealthRecord.workout five_then_rest = [20, 20, 20, 20, 20, 0]
   \<and> StreakCounts.workout (best (streaks (computeMetrics utc_runtime five_then_rest []))) \<noteq> 5"
proof -
  have ne: "five_then_rest \<noteq> []"
    by (simp add: five_then_rest_def)
  have chr: "chronological utc_runtime five_then_rest"
    by (simp add: chronological_def valid_dates_def date_key_def utc_runtime_def
        january_2024_def five_then_rest_def health_record_def)
  have w: "map HealthRecord.workout five_then_rest = [20, 20, 20, 20, 20, 0]"
    by (simp add: five_then_rest_def health_record_def)
  have "StreakCounts.workout (best (streaks (computeMetrics utc_runtime five_then_rest []))) = 0"
    by (simp add: computeMetrics_def zeroMetrics_def)
  with ne chr w show ?thesis by simp
qed

text \<open>
  Claim C4. For non-empty inputs whose health records have valid dates, unique per
  record as the data model requires, the current streak of each habit lies between 0 and
  the best streak.
\<close>

theorem current_streak_at_most_best:
  assumes "healthData \<noteq> []" and "screenTimeData \<noteq> []" and "unique_dates rt healthData"
  shows "let cur = current (streaks (computeMetrics rt healthData screenTimeData));
             bst = best (streaks (computeMetrics rt healthData screenTimeData))
         in 0 \<le> StreakCounts.workout cur \<and> StreakCounts.workout cur \<le> StreakCounts.workout bst
          \<and> 0 \<le> StreakCounts.sleep cur \<and> StreakCounts.sleep cur \<le> StreakCounts.sleep bst
          \<and> 0 \<le> StreakCounts.steps cur \<and> StreakCounts.steps cur \<le> StreakCounts.steps bst"
proof -
  let ?asc = "Array_sort (by_date_asc rt) healthData"
  have "current (streaks (computeMetrics rt healthData screenTimeData)) = currentStreaks (rev ?asc)"
    and "best (streaks (computeMetrics rt healthData screenTimeData)) = bestStreaks ?asc"
    by (simp_all add: computeMetrics_streaks [OF assms(1,2)] sorted_copies [OF assms(3)])
  then show ?thesis
    using current_le_best [of workout_day ?asc] current_le_best [of sleep_day ?asc]
      current_le_best [of steps_day ?asc]
    by (simp add: Let_def currentStreaks_eq bestStreaks_eq)
qed

theorem current_streak_at_most_best_witness:
  "shuffled_health \<noteq> [] \<and> balanced_screen \<noteq> [] \<and> unique_dates utc_runtime shuffled_health
   \<and> StreakCounts.workout
        (current (streaks (computeMetrics utc_runtime shuffled_health balanced_screen)))
      \<le> StreakCounts.workout
        (best (streaks (computeMetrics utc_runtime shuffled_health balanced_screen)))"
proof -
  have ne: "shuffled_health \<noteq> []" "balanced_screen \<noteq> []"
    by (simp_all add: shuffled_health_def balanced_screen_def)
  have u: "unique_dates utc_runtime shuffled_health"
    by (simp add: unique_dates_def valid_dates_def date_key_def utc_runtime_def
        january_2024_def shuffled_health_def health_record_def)
  from current_streak_at_most_best [OF ne u, unfolded Let_def] ne u
  show ?thesis by blast
qed

section \<open>The arguments of \<open>computeMetrics\<close> are left as they were\<close>


lemma computeMetrics_streaks_eq:
  assumes "healthData \<noteq> []" and "screenTimeData \<noteq> []"
  shows "(computeMetrics rt healthData screenTimeData)
           \<lparr>streaks := \<lparr>current = currentStreaks (Array_sort (by_date_desc rt) healthData),
                         best = bestStreaks (Array_sort (by_date_asc rt) healthData)\<rparr>\<rparr> =
         computeMetrics rt healthData screenTimeData"
  using assms by (simp add: computeMetrics_def Let_def)

lemma computeMetrics_heap_nonempty:
  assumes "healthData < length (health_arrays h)"
    and "health_arrays h ! healthData \<noteq> []" and "screen_arrays h ! screenTimeData \<noteq> []"
  shows "computeMetrics_heap rt healthData screenTimeData h =
     (computeMetrics rt (health_arrays h ! healthData) (screen_arrays h ! screenTimeData),
      h\<lparr>health_arrays := health_arrays h
           @ [Array_sort (by_date_desc rt) (health_arrays h ! healthData),
              Array_sort (by_date_asc rt) (health_arrays h ! healthData)]\<rparr>)"
  using assms
  by (simp add: computeMetrics_heap_def spread_def sort_in_place_def Let_def nth_append
      computeMetrics_streaks_eq)

lemma computeMetrics_heap_empty:
  assumes "health_arrays h ! healthData = [] \<or> screen_arrays h ! screenTimeData = []"
  shows "computeMetrics_heap rt healthData screenTimeData h =
     (computeMetrics rt (health_arrays h ! healthData) (screen_arrays h ! screenTimeData), h)"
  using assms by (auto simp: computeMetrics_heap_def computeMetrics_def)

text \<open>
  Claim C10. \<open>computeMetrics\<close> does not write to its arguments: after the call the
  health array and the screen-time array hold the elements they held before, as does
  every other array that existed. The two sorted arrays of the streak section are new
  objects of the heap, and the result is the one of the functional model.
\<close>

theorem computeMetrics_leaves_arguments:
  assumes "healthData < length (health_arrays h)"
    and "screenTimeData < length (screen_arrays h)"
  shows "let result = computeMetrics_heap rt healthData screenTimeData h
         in health_arrays (snd result) ! healthData = health_arrays h ! healthData
          \<and> screen_arrays (snd result) ! screenTimeData = screen_arrays h ! screenTimeData
          \<and> take (length (health_arrays h)) (health_arrays (snd result)) = health_arrays h
          \<and> screen_arrays (snd result) = screen_arrays h
          \<and> fst result =
              computeMetrics rt (health_arrays h ! healthData) (screen_arrays h ! screenTimeData)"
proof (cases "health_arrays h ! healthData = [] \<or> screen_arrays h ! screenTimeData = []")
  case True
  then show ?thesis
    by (simp add: computeMetrics_heap_empty Let_def)
next
  case False
  then show ?thesis
    using assms(1) by (simp add: computeMetrics_heap_nonempty Let_def nth_append)
qed

theorem computeMetrics_leaves_arguments_witness:
  "(0 :: nat) < length (health_arrays \<lparr>health_arrays = [shuffled_health],
                                        screen_arrays = [balanced_screen]\<rparr>)
   \<and> (0 :: nat) < length (screen_arrays \<lparr>health_arrays = [shuffled_health],
                                          screen_arrays = [balanced_screen]\<rparr>)
   \<and> health_arrays (snd (computeMetrics_heap utc_runtime 0 0
        \<lparr>health_arrays = [shuffled_health], screen_arrays = [balanced_screen]\<rparr>)) ! 0 =
      shuffled_health
   \<and> screen_arrays (snd (computeMetrics_heap utc_runtime 0 0
        \<lparr>health_arrays = [shuffled_health], screen_arrays = [balanced_screen]\<rparr>)) ! 0 =
      balanced_screen"
proof -
  let ?h = "\<lparr>health_arrays = [shuffled_health], screen_arrays = [balanced_screen]\<rparr>"
  have v: "0 < length (health_arrays ?h)" "0 < length (screen_arrays ?h)" by simp_all
  from computeMetrics_leaves_arguments [OF v, of utc_runtime, unfolded Let_def]
  show ?thesis by simp
qed

section \<open>Trends\<close>


lemma trend_windows:
  assumes "31 \<le> length healthData"
  shows "Array_slice_from healthData (- 30) = drop (length healthData - 30) healthData"
    and "Array_slice healthData (- 60) (- 30) =
           take (length healthData - 30 - (length healthData - 60))
             (drop (length healthData - 60) healthData)"
    and "0 < length (drop (length healthData - 30) healthData)"
    and "0 < length (take (length healthData - 30 - (length healthData - 60))
             (drop (length healthData - 60) healthData))"
proof -
  have r: "rel_index (length healthData) (- 30) = length healthData - 30"
    "rel_index (length healthData) (- 60) = length healthData - 60"
    using assms by (simp_all add: rel_index_def)
  show "Array_slice_from healthData (- 30) = drop (length healthData - 30) healthData"
    by (simp add: Array_slice_from_def r)
  show "Array_slice healthData (- 60) (- 30) =
           take (length healthData - 30 - (length healthData - 60))
             (drop (length healthData - 60) healthData)"
    by (simp add: Array_slice_def r Let_def)
  show "0 < length (drop (length healthData - 30) healthData)"
    using assms by simp
  show "0 < length (take (length healthData - 30 - (length healthData - 60))
             (drop (length healthData - 60) healthData))"
    using assms by simp
qed

lemma sum_list_window:
  fixes f :: "'a \<Rightarrow> rat"
  assumes "list_all (\<lambda>d. 0 \<le> f d) xs"
  shows "0 \<le> sum_list (map f (drop k xs))"
    and "sum_list (map f (drop k xs)) \<le> sum_list (map f xs)"
    and "0 \<le> sum_list (map f (take j (drop k xs)))"
    and "sum_list (map f (take j (drop k xs))) \<le> sum_list (map f xs)"
proof -
  have nn: "0 \<le> sum_list (map f ys)" if "set ys \<subseteq> set xs" for ys
    using assms that by (intro sum_list_nonneg_list_all) (auto simp: list_all_iff)
  have t: "set (take k xs) \<subseteq> set xs" and d: "set (drop k xs) \<subseteq> set xs"
    by (rule set_take_subset, rule set_drop_subset)
  have td: "set (take j (drop k xs)) \<subseteq> set xs" and dd: "set (drop j (drop k xs)) \<subseteq> set xs"
    using set_take_subset [of j "drop k xs"] set_drop_subset [of j "drop k xs"] d by blast+
  have 1: "sum_list (map f xs) = sum_list (map f (take k xs)) + sum_list (map f (drop k xs))"
    by (metis append_take_drop_id map_append sum_list_append)
  have 2: "sum_list (map f (drop k xs)) =
      sum_list (map f (take j (drop k xs))) + sum_list (map f (drop j (drop k xs)))"
    by (metis append_take_drop_id map_append sum_list_append)
  show "0 \<le> sum_list (map f (drop k xs))" using nn [OF d] .
  show "sum_list (map f (drop k xs)) \<le> sum_list (map f xs)" using 1 nn [OF t] by linarith
  show "0 \<le> sum_list (map f (take j (drop k xs)))" using nn [OF td] .
  show "sum_list (map f (take j (drop k xs))) \<le> sum_list (map f xs)"
    using 1 2 nn [OF t] nn [OF dd] by linarith
qed

lemma trend_arith:
  assumes "0 \<le> ra" and "ra \<le> 2 ^ 53" and "0 \<le> pa" and "pa \<le> 2 ^ 53"
  shows "js_sub (Fin (of_int ra)) (Fin (of_int pa)) = Fin (of_int (ra - pa))"
    and "js_gt (Fin (of_int pa)) (Fin 0) = (0 < pa)"
    and "js_gt (Fin (of_int (ra - pa))) (Fin 0) = (pa < ra)"
    and "js_lt (Fin (of_int (ra - pa))) (Fin 0) = (ra < pa)"
    and "0 < pa \<Longrightarrow>
         Math_round (js_mul (js_div (Fin (of_int (ra - pa))) (Fin (of_int pa))) (Fin 100)) =
           Fin (of_int \<lfloor>nearest_double
                            (nearest_double (of_int (ra - pa) / of_int pa) * 100) + 1 / 2\<rfloor>)"
proof -
  have d: "\<bar>ra - pa\<bar> \<le> 2 ^ 53" using assms by linarith
  have "js_sub (Fin (of_int ra)) (Fin (of_int pa)) = to_double (of_int (ra - pa))"
    by (simp add: js_sub_def)
  then show "js_sub (Fin (of_int ra)) (Fin (of_int pa)) = Fin (of_int (ra - pa))"
    by (simp only: to_double_whole [OF d])
  show "js_gt (Fin (of_int pa)) (Fin 0) = (0 < pa)"
    "js_gt (Fin (of_int (ra - pa))) (Fin 0) = (pa < ra)"
    "js_lt (Fin (of_int (ra - pa))) (Fin 0) = (ra < pa)"
    by (simp_all add: js_lt_def)
  show "Math_round (js_mul (js_div (Fin (of_int (ra - pa))) (Fin (of_int pa))) (Fin 100)) =
      Fin (of_int \<lfloor>nearest_double
                       (nearest_double (of_int (ra - pa) / of_int pa) * 100) + 1 / 2\<rfloor>)"
    if p: "0 < pa"
  proof -
    define x :: rat where "x = of_int (ra - pa) / of_int pa"
    define q where "q = nearest_double x"
    have p1: "(1 :: rat) \<le> of_int pa" using p by simp
    have "(of_int \<bar>ra - pa\<bar> :: rat) \<le> of_int (2 ^ 53)" using d by (simp only: of_int_le_iff)
    then have dd: "\<bar>of_int (ra - pa) :: rat\<bar> \<le> 2 ^ 53" by simp
    have "\<bar>x\<bar> = \<bar>of_int (ra - pa)\<bar> / of_int pa"
      using p by (simp add: x_def abs_divide)
    also have "\<dots> \<le> \<bar>of_int (ra - pa)\<bar>"
      using abs_ge_zero p1 by (rule divide_le_self)
    finally have x1: "\<bar>x\<bar> \<le> 2 ^ 53" using dd by linarith
    have fx: "to_double x = Fin q"
      unfolding q_def using x1 by (rule to_double_bounded) simp
    have "\<bar>q\<bar> \<le> 2 ^ 53" unfolding q_def using x1 by (rule nearest_double_bounded)
    then have "\<bar>q * 100\<bar> \<le> 2 ^ 53 * 100" by (simp add: abs_mult)
    also have "\<dots> \<le> (2 :: rat) ^ 60" by simp
    finally have fq: "to_double (q * 100) = Fin (nearest_double (q * 100))"
      by (rule to_double_bounded) simp
    have "of_int pa \<noteq> (0 :: rat)" using p by simp
    then have jd: "js_div (Fin (of_int (ra - pa))) (Fin (of_int pa)) = to_double x"
      unfolding x_def by (simp only: js_div.simps if_False)
    have "Math_round (js_mul (js_div (Fin (of_int (ra - pa))) (Fin (of_int pa))) (Fin 100)) =
        Fin (of_int \<lfloor>nearest_double (q * 100) + 1 / 2\<rfloor>)"
      by (simp only: jd fx js_mul.simps fq Math_round.simps)
    then show ?thesis by (simp only: q_def x_def)
  qed
qed

text \<open>
  The rounding of the doubles is seen in the percentage. From an average of 200 to one
  of 229 the change is 14.5 percent in exact arithmetic, which \<open>Math.round\<close> would take
  to 15; the double next to 29 / 200, times 100, is just below 14.5.
\<close>

lemma percent_of_doubles:
  "\<lfloor>nearest_double (nearest_double (29 / 200) * 100) + 1 / 2\<rfloor> = 14"
  "\<lfloor>29 / 200 * 100 + 1 / 2 :: rat\<rfloor> = 15"
proof -
  have p1: "nearest_double (29 / 200) = 5224175567749775 / 36028797018963968"
    using nearest_double_eq [of "- 3" "29 / 200" 5224175567749775] by simp
  have p2: "nearest_double ((5224175567749775 / 36028797018963968) * 100) = 8162774324609023 / 562949953421312"
    using nearest_double_eq [of "3" "(5224175567749775 / 36028797018963968) * 100" 8162774324609023] by simp
  show "\<lfloor>nearest_double (nearest_double (29 / 200) * 100) + 1 / 2\<rfloor> = 14"
    by (simp only: p1 p2) (simp add: floor_rat_numeral)
  show "\<lfloor>29 / 200 * 100 + 1 / 2 :: rat\<rfloor> = 15"
    by simp
qed

text \<open>
  Claim C7. For a health array of at least 31 records the previous window is not empty
  and \<open>computeTrendStats\<close> returns a record in which \<open>change\<close> is the recent average
  minus the previous average, \<open>percentChange\<close> is
  \<open>Math.round((change / previousAvg) * 100)\<close> when the previous average is positive and
  0 otherwise, in particular when it is 0, and \<open>trend\<close> is increasing, decreasing or
  stable as the change is positive, negative or neither. The quotient and the product
  are those of JavaScript, rounded to doubles.

  When the values of the metric are counts, the two averages are the rounded means of
  the last 30 records and of the up to 30 records before them, whole numbers; the
  change is their exact difference; the percentage is a whole number; and the trend is
  increasing, decreasing or stable as the recent average is above, below or equal to the
  previous one.
\<close>

theorem trend_stats:
  assumes "31 \<le> length healthData"
  shows "\<exists>r. computeTrendStats healthData metric = Some r
     \<and> change r = js_sub (recent30Days r) (previous30Days r)
     \<and> percentChange r =
         (if js_gt (previous30Days r) (Fin 0)
          then Math_round (js_mul (js_div (change r) (previous30Days r)) (Fin 100))
          else Fin 0)
     \<and> (previous30Days r = Fin 0 \<longrightarrow> percentChange r = Fin 0)
     \<and> trend r =
         (if js_gt (change r) (Fin 0) then ''increasing''
          else if js_lt (change r) (Fin 0) then ''decreasing'' else ''stable'')
     \<and> (counts metric healthData \<longrightarrow>
          (let n = length healthData;
               recent = drop (n - 30) healthData;
               previous = take (n - 30 - (n - 60)) (drop (n - 60) healthData);
               recentAvg = \<lfloor>nearest_double (sum_list (map metric recent)
                                              / of_nat (length recent)) + 1 / 2\<rfloor>;
               previousAvg = \<lfloor>nearest_double (sum_list (map metric previous)
                                                / of_nat (length previous)) + 1 / 2\<rfloor>
           in previous \<noteq> []
            \<and> recent30Days r = Fin (of_int recentAvg)
            \<and> previous30Days r = Fin (of_int previousAvg)
            \<and> change r = Fin (of_int (recentAvg - previousAvg))
            \<and> percentChange r =
                (if 0 < previousAvg
                 then Fin (of_int \<lfloor>nearest_double
                             (nearest_double (of_int (recentAvg - previousAvg)
                                              / of_int previousAvg) * 100) + 1 / 2\<rfloor>)
                 else Fin 0)
            \<and> trend r =
                (if previousAvg < recentAvg then ''increasing''
                 else if recentAvg < previousAvg then ''decreasing'' else ''stable'')))"
proof -
  let ?recent = "drop (length healthData - 30) healthData"
  let ?previous = "take (length healthData - 30 - (length healthData - 60))
                     (drop (length healthData - 60) healthData)"
  let ?ra = "\<lfloor>nearest_double (sum_list (map metric ?recent) / of_nat (length ?recent)) + 1 / 2\<rfloor>"
  let ?pa = "\<lfloor>nearest_double (sum_list (map metric ?previous) / of_nat (length ?previous))
              + 1 / 2\<rfloor>"
  note w = trend_windows [OF assms]
  define R where "R = avg_rounded metric ?recent (length ?recent)"
  define V where "V = avg_rounded metric ?previous (length ?previous)"
  define r where "r =
      \<lparr>recent30Days = R, previous30Days = V, change = js_sub R V,
        percentChange = (if js_gt V (Fin 0)
                         then Math_round (js_mul (js_div (js_sub R V) V) (Fin 100)) else Fin 0),
        trend = (if js_gt (js_sub R V) (Fin 0) then ''increasing''
                 else if js_lt (js_sub R V) (Fin 0) then ''decreasing'' else ''stable''),
        dailyValues = map (\<lambda>d. \<lparr>DateValue.date = HealthRecord.date d, val = metric d\<rparr>)
                        ?recent\<rparr>"
  have ne: "?previous \<noteq> []" using w(4) by auto
  have len: "length ?previous \<noteq> 0" using w(4) by simp
  have some: "computeTrendStats healthData metric = Some r"
    unfolding computeTrendStats_def w(1,2) Let_def r_def R_def V_def
    using len by (simp only: if_False)
  have sel: "recent30Days r = R" "previous30Days r = V" "change r = js_sub R V"
    "percentChange r = (if js_gt V (Fin 0)
                        then Math_round (js_mul (js_div (js_sub R V) V) (Fin 100)) else Fin 0)"
    "trend r = (if js_gt (js_sub R V) (Fin 0) then ''increasing''
                else if js_lt (js_sub R V) (Fin 0) then ''decreasing'' else ''stable'')"
    by (simp_all add: r_def)
  have 1: "change r = js_sub (recent30Days r) (previous30Days r)"
    by (simp only: sel)
  have 2: "percentChange r =
      (if js_gt (previous30Days r) (Fin 0)
       then Math_round (js_mul (js_div (change r) (previous30Days r)) (Fin 100)) else Fin 0)"
    by (simp only: sel)
  have 3: "previous30Days r = Fin 0 \<longrightarrow> percentChange r = Fin 0"
    by (simp add: sel)
  have 4: "trend r =
      (if js_gt (change r) (Fin 0) then ''increasing''
       else if js_lt (change r) (Fin 0) then ''decreasing'' else ''stable'')"
    by (simp only: sel)
  have 5: "?previous \<noteq> []
      \<and> recent30Days r = Fin (of_int ?ra) \<and> previous30Days r = Fin (of_int ?pa)
      \<and> change r = Fin (of_int (?ra - ?pa))
      \<and> percentChange r =
          (if 0 < ?pa
           then Fin (of_int \<lfloor>nearest_double
                       (nearest_double (of_int (?ra - ?pa) / of_int ?pa) * 100) + 1 / 2\<rfloor>)
           else Fin 0)
      \<and> trend r =
          (if ?pa < ?ra then ''increasing''
           else if ?ra < ?pa then ''decreasing'' else ''stable'')"
    if c: "counts metric healthData"
  proof -
    define ra where "ra = ?ra"
    define pa where "pa = ?pa"
    have nn: "list_all (\<lambda>d. 0 \<le> metric d) healthData"
      and s: "sum_list (map metric healthData) \<le> 2 ^ 53"
      using c by (simp_all add: counts_def list_all_iff)
    note win = sum_list_window [OF nn]
    have sr: "0 \<le> sum_list (map metric ?recent)" "sum_list (map metric ?recent) \<le> 2 ^ 53"
      using win(1,2) [of "length healthData - 30"] s by linarith+
    have sp: "0 \<le> sum_list (map metric ?previous)" "sum_list (map metric ?previous) \<le> 2 ^ 53"
      using win(3,4) [of "length healthData - 30 - (length healthData - 60)"
          "length healthData - 60"] s
      by linarith+
    note ar = avg_rounded_whole [OF w(3) sr, folded ra_def]
    note ap = avg_rounded_whole [OF w(4) sp, folded pa_def]
    have RV: "R = Fin (of_int ra)" "V = Fin (of_int pa)"
      by (simp_all only: R_def V_def ar(1) ap(1))
    note ta = trend_arith [OF ar(2,3) ap(2,3)]
    have c1: "recent30Days r = Fin (of_int ra)" "previous30Days r = Fin (of_int pa)"
      by (simp_all only: sel RV)
    have c2: "change r = Fin (of_int (ra - pa))"
      by (simp only: sel RV ta(1))
    have c3: "percentChange r =
          (if 0 < pa
           then Fin (of_int \<lfloor>nearest_double
                       (nearest_double (of_int (ra - pa) / of_int pa) * 100) + 1 / 2\<rfloor>)
           else Fin 0)"
    proof (cases "0 < pa")
      case True
      show ?thesis
        unfolding sel(4) RV ta(1,2) using True by (simp only: ta(5) [OF True] if_True)
    next
      case False
      show ?thesis
        unfolding sel(4) RV ta(1,2) using False by (simp only: if_False)
    qed
    have c4: "trend r =
          (if pa < ra then ''increasing''
           else if ra < pa then ''decreasing'' else ''stable'')"
      by (simp only: sel RV ta(1,3,4))
    from ne c1 c2 c3 c4 show ?thesis unfolding ra_def pa_def by blast
  qed
  from some 1 2 3 4 5 show ?thesis
    unfolding Let_def by blast
qed

theorem trend_stats_witness:
  "31 \<le> length slow_rise_health \<and> counts HealthRecord.steps slow_rise_health
   \<and> map_option recent30Days (computeTrendStats slow_rise_health HealthRecord.steps) =
       Some (Fin 229)
   \<and> map_option previous30Days (computeTrendStats slow_rise_health HealthRecord.steps) =
       Some (Fin 200)
   \<and> map_option change (computeTrendStats slow_rise_health HealthRecord.steps) = Some (Fin 29)
   \<and> map_option percentChange (computeTrendStats slow_rise_health HealthRecord.steps) =
       Some (Fin 14)
   \<and> map_option trend (computeTrendStats slow_rise_health HealthRecord.steps) =
       Some ''increasing''
   \<and> 31 \<le> length rising_health \<and> counts HealthRecord.steps rising_health
   \<and> map_option previous30Days (computeTrendStats rising_health HealthRecord.steps) =
       Some (Fin 0)
   \<and> map_option percentChange (computeTrendStats rising_health HealthRecord.steps) =
       Some (Fin 0)"
proof -
  have n: "31 \<le> length slow_rise_health" by (simp add: slow_rise_health_def)
  have l: "length slow_rise_health = 60" by (simp add: slow_rise_health_def)
  have c: "counts HealthRecord.steps slow_rise_health"
    by (simp add: counts_def slow_rise_health_def health_record_def list_all_iff
        sum_list_replicate)
  have recent: "drop (60 - 30) slow_rise_health =
      replicate 30 (health_record ''2024-01-03'' 229 400 0)"
    by (simp add: slow_rise_health_def)
  have previous: "take (60 - 30 - (60 - 60)) (drop (60 - 60) slow_rise_health) =
      replicate 30 (health_record ''2024-01-02'' 200 400 0)"
    by (simp add: slow_rise_health_def)
  have ra: "\<lfloor>nearest_double (sum_list (map HealthRecord.steps
                (replicate 30 (health_record ''2024-01-03'' 229 400 0)))
        / of_nat (length (replicate 30 (health_record ''2024-01-03'' 229 400 0))))
        + 1 / 2\<rfloor> = 229"
    by (simp add: health_record_def sum_list_replicate nearest_double_numeral floor_rat_numeral)
  have pa: "\<lfloor>nearest_double (sum_list (map HealthRecord.steps
                (replicate 30 (health_record ''2024-01-02'' 200 400 0)))
        / of_nat (length (replicate 30 (health_record ''2024-01-02'' 200 400 0))))
        + 1 / 2\<rfloor> = 200"
    by (simp add: health_record_def sum_list_replicate nearest_double_numeral floor_rat_numeral)
  from trend_stats [OF n, of HealthRecord.steps, unfolded Let_def l recent previous ra pa] c
  obtain r where r: "computeTrendStats slow_rise_health HealthRecord.steps = Some r"
    "recent30Days r = Fin (of_int 229)" "previous30Days r = Fin (of_int 200)"
    "change r = Fin (of_int (229 - 200))"
    "percentChange r =
       (if (0 :: int) < 200
        then Fin (of_int \<lfloor>nearest_double
                    (nearest_double (of_int (229 - 200) / of_int 200) * 100) + 1 / 2\<rfloor>)
        else Fin 0)"
    "trend r = (if (200 :: int) < 229 then ''increasing''
                else if (229 :: int) < 200 then ''decreasing'' else ''stable'')"
    by blast
  have slow: "recent30Days r = Fin 229" "previous30Days r = Fin 200" "change r = Fin 29"
    "percentChange r = Fin 14" "trend r = ''increasing''"
    using r(2-6) by (simp_all add: percent_of_doubles(1))
  have n': "31 \<le> length rising_health" by (simp add: rising_health_def)
  have l': "length rising_health = 31" by (simp add: rising_health_def)
  have c': "counts HealthRecord.steps rising_health"
    by (simp add: counts_def rising_health_def health_record_def list_all_iff
        sum_list_replicate)
  have previous': "take (31 - 30 - (31 - 60)) (drop (31 - 60) rising_health) =
      [health_record ''2024-01-01'' 0 400 0]"
    by (simp add: rising_health_def)
  have pa': "\<lfloor>nearest_double (sum_list (map HealthRecord.steps
                 [health_record ''2024-01-01'' 0 400 0])
        / of_nat (length [health_record ''2024-01-01'' 0 400 0])) + 1 / 2\<rfloor> = 0"
    by (simp add: health_record_def nearest_double_def floor_eq_iff)
  from trend_stats [OF n', of HealthRecord.steps, unfolded Let_def l' previous' pa'] c'
  obtain r' where r': "computeTrendStats rising_health HealthRecord.steps = Some r'"
    "previous30Days r' = Fin (of_int 0)" "previous30Days r' = Fin 0 \<longrightarrow> percentChange r' = Fin 0"
    by blast
  have rising: "previous30Days r' = Fin 0" "percentChange r' = Fin 0"
    using r'(2,3) by simp_all
  from n c r(1) slow n' c' r'(1) rising show ?thesis by simp
qed

section \<open>The ranking of the apps\<close>


lemma insort_key_map:
  "insort_key k (f x) (map f xs) = map f (insort_key (\<lambda>y. k (f y)) x xs)"
  by (induction xs) simp_all

lemma sort_key_map:
  "sort_key k (map f xs) = map f (sort_key (\<lambda>y. k (f y)) xs)"
  by (induction xs) (simp_all add: insort_key_map)

lemma js_insort_map:
  assumes "\<And>x y. cmp' (f x) (f y) = cmp x y"
  shows "js_insort cmp' (f x) (map f xs) = map f (js_insort cmp x xs)"
  by (induction xs) (simp_all add: assms)

lemma Array_sort_map:
  assumes "\<And>x y. cmp' (f x) (f y) = cmp x y"
  shows "Array_sort cmp' (map f xs) = map f (Array_sort cmp xs)"
proof (induction xs)
  case Nil
  show ?case by (simp add: Array_sort_def)
next
  case (Cons x xs)
  then show ?case
    using js_insort_map [of cmp' f cmp x "Array_sort cmp xs", OF assms]
    by (simp add: Array_sort_def)
qed

lemma Object_entries_map:
  "Object_entries (map (\<lambda>a. (a, t a)) names) =
     map (\<lambda>a. (a, t a))
       (sort_key digits_value (filter is_array_index names)
        @ filter (\<lambda>a. \<not> is_array_index a) names)"
  by (simp add: Object_entries_def filter_map comp_def sort_key_map)

lemma appTotals_eq:
  "foldl (\<lambda>obj item. add_total obj (ScreenTimeRecord.app item) (ScreenTimeRecord.minutes item))
     [] screenTimeData =
   map (\<lambda>a. (a, app_total screenTimeData a)) (Set_of (map ScreenTimeRecord.app screenTimeData))"
  unfolding app_total_def by (rule totals_eq)

lemma app_entries:
  "map (\<lambda>(a, m). \<lparr>AppMinutes.app = a, AppMinutes.minutes = m\<rparr>)
     (Object_entries
        (foldl (\<lambda>obj item. add_total obj (ScreenTimeRecord.app item) (ScreenTimeRecord.minutes item))
           [] screenTimeData)) =
   map (app_entry screenTimeData) (app_enumeration screenTimeData)"
  by (simp add: appTotals_eq Object_entries_map app_enumeration_def Let_def app_entry_def comp_def)

lemma sort_by_minutes_desc:
  "Array_sort by_minutes_desc xs = sort_key (\<lambda>e. - AppMinutes.minutes e) xs"
  by (rule Array_sort_sort_key) (simp add: by_minutes_desc_def)

lemma computeAllAppTotals_eq:
  "computeAllAppTotals screenTimeData =
     sort_key (\<lambda>e. - AppMinutes.minutes e)
       (map (app_entry screenTimeData) (app_enumeration screenTimeData))"
  by (simp only: computeAllAppTotals_def Let_def app_entries sort_by_minutes_desc)

lemma topApps_eq:
  assumes "healthData \<noteq> []" and "screenTimeData \<noteq> []"
  shows "ScreenTimeMetrics.topApps (screenTime (computeMetrics rt healthData screenTimeData)) =
     take 10 (computeAllAppTotals screenTimeData)"
proof -
  have "by_minutes_desc (case x of (a, m) \<Rightarrow> \<lparr>AppMinutes.app = a, AppMinutes.minutes = m\<rparr>)
      (case y of (a, m) \<Rightarrow> \<lparr>AppMinutes.app = a, AppMinutes.minutes = m\<rparr>) = by_value_desc x y"
    for x y :: "string \<times> rat"
    by (cases x, cases y) (simp add: by_minutes_desc_def by_value_desc_def)
  then have "Array_sort by_minutes_desc
       (map (\<lambda>(a, m). \<lparr>AppMinutes.app = a, AppMinutes.minutes = m\<rparr>) es) =
     map (\<lambda>(a, m). \<lparr>AppMinutes.app = a, AppMinutes.minutes = m\<rparr>) (Array_sort by_value_desc es)"
    for es
    by (rule Array_sort_map)
  then show ?thesis
    using assms
    by (simp add: computeMetrics_def Let_def topApps_of_def computeAllAppTotals_def take_map
        screenTime_totals_def screenTime_totals_app)
qed

lemma mset_app_enumeration:
  "mset (app_enumeration screenTimeData) = mset (Set_of (map ScreenTimeRecord.app screenTimeData))"
  by (simp add: app_enumeration_def Let_def)

lemma app_enumeration_plain:
  assumes "list_all (\<lambda>a. \<not> is_array_index a) (Set_of (map ScreenTimeRecord.app screenTimeData))"
  shows "app_enumeration screenTimeData = Set_of (map ScreenTimeRecord.app screenTimeData)"
proof -
  have "filter is_array_index (Set_of (map ScreenTimeRecord.app screenTimeData)) = []"
    "filter (\<lambda>a. \<not> is_array_index a) (Set_of (map ScreenTimeRecord.app screenTimeData)) =
       Set_of (map ScreenTimeRecord.app screenTimeData)"
    using assms by (simp_all add: list_all_iff filter_empty_conv)
  then show ?thesis by (simp add: app_enumeration_def Let_def)
qed

text \<open>
  Claim C6, as amended. The input is a screen-time array whose minutes are counts and
  whose app names are plain keys. The ranking holds one entry for each app name of the
  input, whose minutes are the sum of the minutes of all the records of that app; it is
  sorted by descending minutes, and entries with equal minutes keep the order in which
  \<open>Object.entries\<close> enumerates the totals: app names that are array indices first, by
  ascending numeric value, then the other names by first occurrence. When no app name
  is an array index this is the order of first occurrence. The \<open>topApps\<close> of
  \<open>computeMetrics\<close> are the first ten entries of the ranking.
\<close>

theorem app_ranking:
  assumes "plain_keys (map ScreenTimeRecord.app screenTimeData)"
    and "counts ScreenTimeRecord.minutes screenTimeData"
  shows
  "let ranking = computeAllAppTotals screenTimeData;
       names = Set_of (map ScreenTimeRecord.app screenTimeData);
       entries = map (app_entry screenTimeData) (app_enumeration screenTimeData)
   in ranking = sort_key (\<lambda>e. - AppMinutes.minutes e) entries
    \<and> mset (map AppMinutes.app ranking) = mset names
    \<and> list_all (\<lambda>e. AppMinutes.minutes e = app_total screenTimeData (AppMinutes.app e)) ranking
    \<and> sorted_wrt (\<lambda>x y. AppMinutes.minutes y \<le> AppMinutes.minutes x) ranking
    \<and> (\<forall>v. filter (\<lambda>e. AppMinutes.minutes e = v) ranking =
             filter (\<lambda>e. AppMinutes.minutes e = v) entries)
    \<and> (list_all (\<lambda>a. \<not> is_array_index a) names \<longrightarrow> app_enumeration screenTimeData = names)
    \<and> (healthData \<noteq> [] \<and> screenTimeData \<noteq> [] \<longrightarrow>
         ScreenTimeMetrics.topApps (screenTime (computeMetrics rt healthData screenTimeData)) =
           take 10 ranking)"
proof -
  let ?entries = "map (app_entry screenTimeData) (app_enumeration screenTimeData)"
  let ?r = "computeAllAppTotals screenTimeData"
  note r = computeAllAppTotals_eq [of screenTimeData]
  have 1: "mset (map AppMinutes.app ?r) = mset (Set_of (map ScreenTimeRecord.app screenTimeData))"
  proof -
    have "map AppMinutes.app ?entries = app_enumeration screenTimeData"
      by (simp add: comp_def app_entry_def)
    then have "mset (map AppMinutes.app ?r) = mset (app_enumeration screenTimeData)"
      unfolding r by (metis mset_map mset_sort)
    then show ?thesis by (simp only: mset_app_enumeration)
  qed
  have 2: "list_all (\<lambda>e. AppMinutes.minutes e = app_total screenTimeData (AppMinutes.app e)) ?r"
    unfolding r by (auto simp: list_all_iff app_entry_def)
  have "sorted (map (\<lambda>e. - AppMinutes.minutes e) ?r)"
    unfolding r by (rule sorted_sort_key)
  then have 3: "sorted_wrt (\<lambda>x y. AppMinutes.minutes y \<le> AppMinutes.minutes x) ?r"
    by (simp add: sorted_wrt_map)
  have 4: "filter (\<lambda>e. AppMinutes.minutes e = v) ?r = filter (\<lambda>e. AppMinutes.minutes e = v) ?entries"
    for v
    unfolding r
    using sort_key_stable [of "\<lambda>e. - AppMinutes.minutes e" "- v" ?entries] by simp
  show ?thesis
    unfolding Let_def using r 1 2 3 4 app_enumeration_plain topApps_eq by blast
qed

theorem app_ranking_witness:
  "plain_keys (map ScreenTimeRecord.app abc_screen) \<and> counts ScreenTimeRecord.minutes abc_screen
   \<and> list_all (\<lambda>a. \<not> is_array_index a) (Set_of (map ScreenTimeRecord.app abc_screen))
   \<and> balanced_health \<noteq> [] \<and> abc_screen \<noteq> []
   \<and> app_enumeration abc_screen = [''A'', ''B'', ''C'']
   \<and> computeAllAppTotals abc_screen =
       [\<lparr>AppMinutes.app = ''B'', AppMinutes.minutes = 250\<rparr>,
        \<lparr>AppMinutes.app = ''A'', AppMinutes.minutes = 100\<rparr>,
        \<lparr>AppMinutes.app = ''C'', AppMinutes.minutes = 40\<rparr>]
   \<and> ScreenTimeMetrics.topApps (screenTime (computeMetrics utc_runtime balanced_health abc_screen)) =
       take 10 (computeAllAppTotals abc_screen)"
proof -
  have names: "Set_of (map ScreenTimeRecord.app abc_screen) = [''A'', ''B'', ''C'']"
    by (simp add: Set_of_def abc_screen_def screen_record_def)
  have plain: "list_all (\<lambda>a. \<not> is_array_index a) (Set_of (map ScreenTimeRecord.app abc_screen))"
    by (simp add: names is_array_index_def is_digit_def)
  have ne: "balanced_health \<noteq> []" "abc_screen \<noteq> []"
    by (simp_all add: balanced_health_def abc_screen_def)
  have totals: "app_total abc_screen ''A'' = 100" "app_total abc_screen ''B'' = 250"
    "app_total abc_screen ''C'' = 40"
    by (simp_all add: app_total_def abc_screen_def screen_record_def)
  have pk: "plain_keys (map ScreenTimeRecord.app abc_screen)"
    by (simp add: plain_keys_def abc_screen_def screen_record_def Object_prototype_names_def)
  have cn: "counts ScreenTimeRecord.minutes abc_screen"
    by (simp add: counts_def abc_screen_def screen_record_def)
  note inst = app_ranking [OF pk cn, where healthData = balanced_health and rt = utc_runtime,
      unfolded Let_def]
  from inst plain have enum: "app_enumeration abc_screen = [''A'', ''B'', ''C'']"
    by (simp add: names)
  from inst have "computeAllAppTotals abc_screen =
      sort_key (\<lambda>e. - AppMinutes.minutes e) (map (app_entry abc_screen) (app_enumeration abc_screen))"
    by blast
  then have rank: "computeAllAppTotals abc_screen =
       [\<lparr>AppMinutes.app = ''B'', AppMinutes.minutes = 250\<rparr>,
        \<lparr>AppMinutes.app = ''A'', AppMinutes.minutes = 100\<rparr>,
        \<lparr>AppMinutes.app = ''C'', AppMinutes.minutes = 40\<rparr>]"
    by (simp add: enum app_entry_def totals)
  from inst ne have "ScreenTimeMetrics.topApps
        (screenTime (computeMetrics utc_runtime balanced_health abc_screen)) =
       take 10 (computeAllAppTotals abc_screen)"
    by blast
  with pk cn plain ne enum rank show ?thesis by blast
qed

text \<open>
  Claim C6 as it was stated keeps ties in the order of first occurrence. An app whose
  name is a numeral is enumerated before the others: with the same total, ``2048'' is
  ranked before ``A'', which occurs first in the input. The minutes of this input are
  counts and its app names are plain keys.
\<close>

theorem tie_not_in_first_occurrence_order:
  "map ScreenTimeRecord.app tied_screen = [''A'', ''2048'']
   \<and> plain_keys (map ScreenTimeRecord.app tied_screen)
   \<and> counts ScreenTimeRecord.minutes tied_screen
   \<and> computeAllAppTotals tied_screen =
       [\<lparr>AppMinutes.app = ''2048'', AppMinutes.minutes = 10\<rparr>,
        \<lparr>AppMinutes.app = ''A'', AppMinutes.minutes = 10\<rparr>]"
proof -
  have "plain_keys (map ScreenTimeRecord.app tied_screen)"
    by (simp add: plain_keys_def tied_screen_def screen_record_def Object_prototype_names_def)
  moreover have "counts ScreenTimeRecord.minutes tied_screen"
    by (simp add: counts_def tied_screen_def screen_record_def)
  moreover have "map ScreenTimeRecord.app tied_screen = [''A'', ''2048'']
    \<and> computeAllAppTotals tied_screen =
       [\<lparr>AppMinutes.app = ''2048'', AppMinutes.minutes = 10\<rparr>,
        \<lparr>AppMinutes.app = ''A'', AppMinutes.minutes = 10\<rparr>]"
    by (simp add: computeAllAppTotals_def tied_screen_def screen_record_def add_total_def
        obj_get_def Object_entries_def is_array_index_def is_digit_def digits_value_def
        Array_sort_def by_minutes_desc_def)
  ultimately show ?thesis by blast
qed

section \<open>The most used app\<close>







section \<open>Weekdays and weekends\<close>

text \<open>
  Claim C9 holds in a browser on UTC time and fails in one to the west of it.
  \<open>isWeekend\<close>, which its comment calls the helper to determine if a date is a weekend,
  parses the date-only string as midnight UTC and asks \<open>getDay\<close> for the day of the week
  in local time. 6 January 2024 was a Saturday, and \<open>getDay\<close> answers 6 for it on UTC
  time; in New York that instant is Friday evening, \<open>getDay\<close> answers 5, and the record
  of the Saturday is counted in the weekday bucket, with its 50 minutes, while the
  weekend bucket stays empty.
\<close>

theorem saturday_in_weekday_bucket:
  "Date_getDay utc_runtime ''2024-01-06'' = Fin 6
   \<and> isWeekend utc_runtime ''2024-01-06'' = True
   \<and> days (weekend (computeAppWeekdayWeekendStats utc_runtime ''Instagram'' saturday_screen)) = 1
   \<and> Date_getDay new_york_runtime ''2024-01-06'' = Fin 5
   \<and> isWeekend new_york_runtime ''2024-01-06'' = False
   \<and> days (weekend (computeAppWeekdayWeekendStats new_york_runtime ''Instagram''
                       saturday_screen)) = 0
   \<and> days (weekday (computeAppWeekdayWeekendStats new_york_runtime ''Instagram''
                       saturday_screen)) = 1
   \<and> totalMinutes (weekday (computeAppWeekdayWeekendStats new_york_runtime ''Instagram''
                               saturday_screen)) = 50"
proof -
  have day: "Date_getDay utc_runtime ''2024-01-06'' = Fin 6"
    "Date_getDay new_york_runtime ''2024-01-06'' = Fin 5"
    by (simp_all add: utc_runtime_def new_york_runtime_def january_2024_def)
  have we: "isWeekend utc_runtime ''2024-01-06'' = True"
    "isWeekend new_york_runtime ''2024-01-06'' = False"
    by (simp_all add: isWeekend_def day)
  have "days (weekend (computeAppWeekdayWeekendStats utc_runtime ''Instagram''
                         saturday_screen)) = 1"
    "days (weekend (computeAppWeekdayWeekendStats new_york_runtime ''Instagram''
                       saturday_screen)) = 0"
    "days (weekday (computeAppWeekdayWeekendStats new_york_runtime ''Instagram''
                       saturday_screen)) = 1"
    "totalMinutes (weekday (computeAppWeekdayWeekendStats new_york_runtime ''Instagram''
                               saturday_screen)) = 50"
    by (simp_all add: computeAppWeekdayWeekendStats_def bucket_step_def bucketStats_def
        saturday_screen_def screen_record_def we Let_def)
  with day we show ?thesis by blast
qed

end
